theory Spec2Isabelle
  imports Complex_Main
begin

section \<open>Metric descriptors and samples (main.go, lines 17-62)\<close>

text \<open>
  The exporter uses three things of the Prometheus client library: a descriptor
  (\<^verbatim>\<open>prometheus.Desc\<close>: fully qualified name, help text, names of the variable
  labels), a constant metric (\<^verbatim>\<open>prometheus.MustNewConstMetric\<close>: descriptor, value type,
  value, label values) and the channel \<^verbatim>\<open>ch\<close> a collector writes its metrics to.
  A channel is modelled by the list of the metrics sent to it, in the order of sending.

  A metric value is a Go \<^verbatim>\<open>float64\<close>. Every value that reaches this program is finite
  (it comes from a JSON number or from an \<^verbatim>\<open>int\<close>), so a value is modelled by the
  rational number the double stands for.
\<close>

type_synonym float64 = rat

record Desc =
  fqName :: string
  helpText :: string
  variableLabels :: "string list"

datatype ValueType = CounterValue | GaugeValue | UntypedValue

record Metric =
  desc :: Desc
  valType :: ValueType
  val :: float64
  labelValues :: "string list"

text \<open>\<^verbatim>\<open>prometheus.BuildFQName\<close>: the non-empty parts joined by an underscore.\<close>

definition BuildFQName :: "string \<Rightarrow> string \<Rightarrow> string \<Rightarrow> string" where
  "BuildFQName ns subsystem name =
     (if name = [] then []
      else if ns \<noteq> [] \<and> subsystem \<noteq> [] then ns @ ''_'' @ subsystem @ ''_'' @ name
      else if ns \<noteq> [] then ns @ ''_'' @ name
      else if subsystem \<noteq> [] then subsystem @ ''_'' @ name
      else name)"

text \<open>\<^verbatim>\<open>prometheus.NewDesc\<close>; the constant labels are \<^verbatim>\<open>nil\<close> at every call.\<close>

definition NewDesc :: "string \<Rightarrow> string \<Rightarrow> string list \<Rightarrow> Desc" where
  "NewDesc fq h ls = \<lparr>fqName = fq, helpText = h, variableLabels = ls\<rparr>"

text \<open>
  \<^verbatim>\<open>prometheus.MustNewConstMetric\<close> panics when the number of label values differs
  from the number of variable labels of the descriptor. The model builds the metric;
  lemma \<open>CollectFromAPI_samples_labels\<close> below shows that the numbers agree at
  every call of this program.
\<close>

definition MustNewConstMetric :: "Desc \<Rightarrow> ValueType \<Rightarrow> float64 \<Rightarrow> string list \<Rightarrow> Metric" where
  "MustNewConstMetric d t v ls = \<lparr>desc = d, valType = t, val = v, labelValues = ls\<rparr>"

definition namespace :: string where
  "namespace = ''adguardhome''"

definition up :: Desc where
  "up = NewDesc (BuildFQName namespace [] ''up'') ''Exporter status.'' []"

definition upstreamTime :: Desc where
  "upstreamTime = NewDesc (BuildFQName namespace [] ''upstream_responses'')
     ''Upstreams average response time (in seconds).'' [''address'']"

definition dnsQueries :: Desc where
  "dnsQueries = NewDesc (BuildFQName namespace [] ''dns_queries'')
     ''Total number of DNS queries.'' []"

definition blockedDNSqueries :: Desc where
  "blockedDNSqueries = NewDesc (BuildFQName namespace [] ''blocked_dns_queries'')
     ''Total number of blocked DNS queries.'' []"

definition processingTime :: Desc where
  "processingTime = NewDesc (BuildFQName namespace [] ''processing_time'')
     ''Average DNS query processing time (in seconds).'' []"

definition safeBrowsing :: Desc where
  "safeBrowsing = NewDesc (BuildFQName namespace [] ''blocked_safe_browsing'')
     ''Blocked requests via Safe Browsing.'' []"

definition safeSearch :: Desc where
  "safeSearch = NewDesc (BuildFQName namespace [] ''blocked_safe_search'')
     ''Blocked requests via Safe Search.'' []"

section \<open>The response and the exporter (lines 64-83)\<close>

text \<open>
  A Go \<^verbatim>\<open>map[string]float64\<close> is modelled by the list of its entries, each key once,
  in the order in which \<^verbatim>\<open>range\<close> visits them (Go leaves that order open; a theorem
  below that holds for every list holds for every order). The Go \<^verbatim>\<open>int\<close> is the
  64-bit one of the platforms the exporter is built for; a counter is an \<open>int\<close> here,
  and the decoder of section \<open>Decoding\<close> stores only values of that range.
\<close>

type_synonym gomap = "(string \<times> float64) list"

record Response =
  UpstreamTime :: "gomap list"
  AllDNSQueries :: int
  BlockedDNSQueries :: int
  ProcessingTime :: float64
  SafeBrowsing :: int
  SafeSearch :: int

text \<open>The zero value that \<^verbatim>\<open>var res Response\<close> (line 128) declares.\<close>

definition Response_zero :: Response where
  "Response_zero = \<lparr>UpstreamTime = [], AllDNSQueries = 0, BlockedDNSQueries = 0,
     ProcessingTime = 0, SafeBrowsing = 0, SafeSearch = 0\<rparr>"

record Exporter =
  Endpoint :: string
  Username :: string
  Password :: string

definition NewExporter :: "string \<Rightarrow> string \<Rightarrow> string \<Rightarrow> Exporter" where
  "NewExporter endpoint username password =
     \<lparr>Endpoint = endpoint, Username = username, Password = password\<rparr>"

definition Describe :: "Desc list" where
  "Describe = [up, upstreamTime, dnsQueries, blockedDNSqueries, processingTime,
     safeBrowsing, safeSearch]"

section \<open>The conversion \<^verbatim>\<open>float64(n)\<close> of an \<^verbatim>\<open>int\<close>\<close>

text \<open>
  A double has a significand of 53 bits. Go converts an integer to the nearest double,
  a tie going to the even significand. For a 64-bit integer the exponent is always in
  range, so the result is the integer rounded to its 53 leading bits.
\<close>

fun bit_length :: "nat \<Rightarrow> nat" where
  "bit_length n = (if n = 0 then 0 else Suc (bit_length (n div 2)))"

declare bit_length.simps [simp del]

definition round_to_53 :: "nat \<Rightarrow> nat" where
  "round_to_53 a =
     (let e = bit_length a - 53;
          q = a div 2 ^ e;
          r = a mod 2 ^ e;
          q' = (if 2 * r > 2 ^ e \<or> (2 * r = 2 ^ e \<and> odd q) then q + 1 else q)
      in q' * 2 ^ e)"

definition float64_of_int :: "int \<Rightarrow> float64" where
  "float64_of_int n = of_int (sgn n * int (round_to_53 (nat \<bar>n\<bar>)))"

section \<open>The samples of a response (lines 131-153)\<close>

text \<open>
  The inner loop \<^verbatim>\<open>for k, v := range i\<close> sends one \<^verbatim>\<open>upstream_responses\<close> metric for
  each entry of the map \<open>i\<close>, labelled with the key; the outer loop runs over the
  sequence. \<^verbatim>\<open>float64(v)\<close> of a \<^verbatim>\<open>float64\<close> is \<open>v\<close>.
\<close>

definition range_map :: "gomap \<Rightarrow> Metric list" where
  "range_map i = map (\<lambda>(k, v). MustNewConstMetric upstreamTime GaugeValue v [k]) i"

definition range_UpstreamTime :: "gomap list \<Rightarrow> Metric list" where
  "range_UpstreamTime us = concat (map range_map us)"

definition CollectFromAPI_samples :: "Response \<Rightarrow> Metric list" where
  "CollectFromAPI_samples res =
     range_UpstreamTime (UpstreamTime res) @
     [MustNewConstMetric dnsQueries GaugeValue (float64_of_int (AllDNSQueries res)) [],
      MustNewConstMetric blockedDNSqueries GaugeValue (float64_of_int (BlockedDNSQueries res)) [],
      MustNewConstMetric processingTime GaugeValue (ProcessingTime res) [],
      MustNewConstMetric safeBrowsing GaugeValue (float64_of_int (SafeBrowsing res)) [],
      MustNewConstMetric safeSearch GaugeValue (float64_of_int (SafeSearch res)) []]"

section \<open>Errors, requests and the libraries the scrape calls\<close>

text \<open>
  An error of the network layer carries its message; the two errors of
  \<^verbatim>\<open>json.Unmarshal\<close> are a syntax error (the body is not a JSON text) and a type error
  (a JSON value does not fit the Go type it is decoded to).
\<close>

datatype error = NetError string | SyntaxError | UnmarshalTypeError

record Request =
  Method :: string
  URL :: string
  Header :: "(string \<times> string) list"

definition MethodGet :: string where
  "MethodGet = ''GET''"

text \<open>\<^verbatim>\<open>Header.Set\<close> replaces the values stored under the key.\<close>

definition Header_Set :: "string \<Rightarrow> string \<Rightarrow> (string \<times> string) list \<Rightarrow> (string \<times> string) list" where
  "Header_Set k v h = (k, v) # filter (\<lambda>p. fst p \<noteq> k) h"

subsection \<open>JSON texts\<close>

text \<open>
  The bytes of a body are modelled by what the JSON scanner makes of them:
  \<open>Malformed\<close> when they are not a JSON text, the JSON value otherwise. A number
  keeps what \<^verbatim>\<open>strconv\<close> needs: \<open>JInt n\<close> is a literal without fraction and exponent
  (the only literals \<^verbatim>\<open>ParseInt\<close> accepts), of value \<open>n\<close>; \<open>JFloat x\<close> is a literal with
  a fraction or an exponent, \<open>x\<close> being the double \<^verbatim>\<open>ParseFloat\<close> returns for it, or
  \<open>None\<close> when the literal is out of the range of a double.
\<close>

datatype json =
    JNull
  | JBool bool
  | JInt int
  | JFloat "float64 option"
  | JString string
  | JArray "json list"
  | JObject "(string \<times> json) list"

datatype body = Malformed | Document json

subsection \<open>The network\<close>

text \<open>
  What the network does is not code of the exporter; it is a parameter of the model:
  \<^item> \<open>url_Parse\<close>: the error, if any, with which \<^verbatim>\<open>http.NewRequest\<close> rejects a URL
    (the method \<^verbatim>\<open>GET\<close> is always accepted);
  \<^item> \<open>client_Do\<close>: what \<^verbatim>\<open>client.Do\<close> returns for a request, an error or a response
    (of an abstract type \<open>'r\<close>);
  \<^item> \<open>io_ReadAll\<close>: what \<^verbatim>\<open>io.ReadAll\<close> returns for the body of a response, an error or
    the body.
  The program does not look at the status code of the response.
\<close>

record 'r world =
  url_Parse :: "string \<Rightarrow> error option"
  client_Do :: "Request \<Rightarrow> error + 'r"
  io_ReadAll :: "'r \<Rightarrow> error + body"

definition NewRequest :: "'r world \<Rightarrow> string \<Rightarrow> string \<Rightarrow> error + Request" where
  "NewRequest w method url =
     (case url_Parse w url of
        Some e \<Rightarrow> Inl e
      | None \<Rightarrow> Inr \<lparr>Method = method, URL = url, Header = []\<rparr>)"

subsection \<open>\<^verbatim>\<open>base64.StdEncoding.EncodeToString\<close>\<close>

text \<open>The standard alphabet of RFC 4648, with padding.\<close>

definition encodeStd :: string where
  "encodeStd = ''ABCDEFGHIJKLMNOPQRSTUVWXYZabcdefghijklmnopqrstuvwxyz0123456789+/''"

definition sextet :: "nat \<Rightarrow> char" where
  "sextet n = encodeStd ! (n mod 64)"

fun base64_encode :: "nat list \<Rightarrow> string" where
  "base64_encode [] = []"
| "base64_encode [a] =
     [sextet (a div 4), sextet ((a mod 4) * 16), CHR ''='', CHR ''='']"
| "base64_encode [a, b] =
     [sextet (a div 4), sextet ((a mod 4) * 16 + b div 16), sextet ((b mod 16) * 4), CHR ''='']"
| "base64_encode (a # b # c # rest) =
     [sextet (a div 4), sextet ((a mod 4) * 16 + b div 16),
      sextet ((b mod 16) * 4 + c div 64), sextet (c mod 64)] @ base64_encode rest"

definition EncodeToString :: "string \<Rightarrow> string" where
  "EncodeToString s = base64_encode (map of_char s)"

section \<open>Decoding the body into the response (lines 64-71, 128-129)\<close>

text \<open>
  \<^verbatim>\<open>json.Unmarshal(body, &res)\<close>, for the struct \<^verbatim>\<open>Response\<close> and as the documentation of
  \<^verbatim>\<open>encoding/json\<close> describes it:
  \<^item> the whole text is checked first; a text that is not JSON gives a syntax error and
    leaves \<open>res\<close> as it is;
  \<^item> \<^verbatim>\<open>null\<close> leaves a number as it is and makes a slice or a map \<^verbatim>\<open>nil\<close>, which
    \<^verbatim>\<open>range\<close> treats as empty;
  \<^item> the members of an object are processed in order; a key is matched with the
    \<^verbatim>\<open>json\<close> tags of the struct, exactly first and ignoring case otherwise; a key that
    matches no tag is skipped; a tag that no key matches leaves its field as it is;
  \<^item> a value that does not fit its target (or a number that overflows it) is skipped,
    decoding goes on, and the earliest such error is returned at the end;
  \<^item> an array resets the slice and appends one element for each item; an object stores
    its members in a new map, a later duplicate of a key replacing the earlier one, and a
    member whose value does not fit being stored with the value 0.
\<close>

definition first_error :: "error option \<Rightarrow> error option \<Rightarrow> error option" where
  "first_error e e' = (case e of Some x \<Rightarrow> Some x | None \<Rightarrow> e')"

definition decode_int :: "json \<Rightarrow> int \<Rightarrow> int \<times> error option" where
  "decode_int j cur =
     (case j of
        JNull \<Rightarrow> (cur, None)
      | JInt n \<Rightarrow>
          if - (2 ^ 63) \<le> n \<and> n < 2 ^ 63 then (n, None) else (cur, Some UnmarshalTypeError)
      | _ \<Rightarrow> (cur, Some UnmarshalTypeError))"

definition decode_float64 :: "json \<Rightarrow> float64 \<Rightarrow> float64 \<times> error option" where
  "decode_float64 j cur =
     (case j of
        JNull \<Rightarrow> (cur, None)
      | JInt n \<Rightarrow>
          if round_to_53 (nat \<bar>n\<bar>) < 2 ^ 1024 then (float64_of_int n, None)
          else (cur, Some UnmarshalTypeError)
      | JFloat (Some x) \<Rightarrow> (x, None)
      | _ \<Rightarrow> (cur, Some UnmarshalTypeError))"

text \<open>\<^verbatim>\<open>m[k] = x\<close> on the entries of a map.\<close>

definition map_store :: "string \<Rightarrow> float64 \<Rightarrow> gomap \<Rightarrow> gomap" where
  "map_store k x m =
     (if k \<in> set (map fst m) then map (\<lambda>(k', x'). if k' = k then (k', x) else (k', x')) m
      else m @ [(k, x)])"

fun decode_members :: "(string \<times> json) list \<Rightarrow> gomap \<Rightarrow> gomap \<times> error option" where
  "decode_members [] m = (m, None)"
| "decode_members ((k, v) # ms) m =
     (let (x, e) = decode_float64 v 0;
          (m', e') = decode_members ms (map_store k x m)
      in (m', first_error e e'))"

definition decode_map :: "json \<Rightarrow> gomap \<Rightarrow> gomap \<times> error option" where
  "decode_map j cur =
     (case j of
        JNull \<Rightarrow> ([], None)
      | JObject ms \<Rightarrow> decode_members ms cur
      | _ \<Rightarrow> (cur, Some UnmarshalTypeError))"

fun decode_elements :: "json list \<Rightarrow> gomap list \<times> error option" where
  "decode_elements [] = ([], None)"
| "decode_elements (j # js) =
     (let (m, e) = decode_map j [];
          (ms, e') = decode_elements js
      in (m # ms, first_error e e'))"

definition decode_slice :: "json \<Rightarrow> gomap list \<Rightarrow> gomap list \<times> error option" where
  "decode_slice j cur =
     (case j of
        JNull \<Rightarrow> ([], None)
      | JArray js \<Rightarrow> decode_elements js
      | _ \<Rightarrow> (cur, Some UnmarshalTypeError))"

text \<open>The fields of \<^verbatim>\<open>Response\<close> and their \<^verbatim>\<open>json\<close> tags (lines 65-70).\<close>

datatype Response_field =
    F_UpstreamTime | F_AllDNSQueries | F_BlockedDNSQueries
  | F_ProcessingTime | F_SafeBrowsing | F_SafeSearch

definition Response_tags :: "(string \<times> Response_field) list" where
  "Response_tags =
     [(''top_upstreams_avg_time'', F_UpstreamTime),
      (''num_dns_queries'', F_AllDNSQueries),
      (''num_blocked_filtering'', F_BlockedDNSQueries),
      (''avg_processing_time'', F_ProcessingTime),
      (''num_replaced_safebrowsing'', F_SafeBrowsing),
      (''num_replaced_safesearch'', F_SafeSearch)]"

text \<open>
  Matching that ignores case: ASCII letters are folded to upper case, and so are the
  two letters outside ASCII that Unicode folds to ASCII ones, the Kelvin sign (bytes
  E2 84 AA, to K) and the long s (bytes C5 BF, to S). Every other byte stays; the
  tags are ASCII, so a key with another byte above 127 matches none of them.
\<close>

fun foldName :: "nat list \<Rightarrow> nat list" where
  "foldName [] = []"
| "foldName (a # bs) =
     (if 97 \<le> a \<and> a \<le> 122 then (a - 32) # foldName bs
      else case bs of
        b # cs \<Rightarrow>
          if a = 197 \<and> b = 191 then 83 # foldName cs
          else (case cs of
                  c # ds \<Rightarrow> if a = 226 \<and> b = 132 \<and> c = 170 then 75 # foldName ds
                            else a # foldName bs
                | [] \<Rightarrow> a # foldName bs)
      | [] \<Rightarrow> [a])"

definition fold_key :: "string \<Rightarrow> nat list" where
  "fold_key k = foldName (map of_char k)"

definition lookup_field :: "string \<Rightarrow> Response_field option" where
  "lookup_field key =
     (case map_of Response_tags key of
        Some f \<Rightarrow> Some f
      | None \<Rightarrow> map_of (map (\<lambda>(tag, f). (fold_key tag, f)) Response_tags) (fold_key key))"

definition store_field :: "Response_field \<Rightarrow> json \<Rightarrow> Response \<Rightarrow> Response \<times> error option" where
  "store_field f j r =
     (case f of
        F_UpstreamTime \<Rightarrow>
          (let (x, e) = decode_slice j (UpstreamTime r) in (r\<lparr>UpstreamTime := x\<rparr>, e))
      | F_AllDNSQueries \<Rightarrow>
          (let (x, e) = decode_int j (AllDNSQueries r) in (r\<lparr>AllDNSQueries := x\<rparr>, e))
      | F_BlockedDNSQueries \<Rightarrow>
          (let (x, e) = decode_int j (BlockedDNSQueries r) in (r\<lparr>BlockedDNSQueries := x\<rparr>, e))
      | F_ProcessingTime \<Rightarrow>
          (let (x, e) = decode_float64 j (ProcessingTime r) in (r\<lparr>ProcessingTime := x\<rparr>, e))
      | F_SafeBrowsing \<Rightarrow>
          (let (x, e) = decode_int j (SafeBrowsing r) in (r\<lparr>SafeBrowsing := x\<rparr>, e))
      | F_SafeSearch \<Rightarrow>
          (let (x, e) = decode_int j (SafeSearch r) in (r\<lparr>SafeSearch := x\<rparr>, e)))"

fun decode_object :: "(string \<times> json) list \<Rightarrow> Response \<Rightarrow> Response \<times> error option" where
  "decode_object [] r = (r, None)"
| "decode_object ((k, v) # ms) r =
     (case lookup_field k of
        None \<Rightarrow> decode_object ms r
      | Some f \<Rightarrow>
          (let (r', e) = store_field f v r;
               (r'', e') = decode_object ms r'
           in (r'', first_error e e')))"

definition Unmarshal :: "body \<Rightarrow> Response \<Rightarrow> Response \<times> error option" where
  "Unmarshal b r =
     (case b of
        Malformed \<Rightarrow> (r, Some SyntaxError)
      | Document JNull \<Rightarrow> (r, None)
      | Document (JObject ms) \<Rightarrow> decode_object ms r
      | Document _ \<Rightarrow> (r, Some UnmarshalTypeError))"

section \<open>The collector (lines 95-156)\<close>

text \<open>
  \<open>CollectFromAPI\<close> returns what the Go method does to its surroundings: the requests
  handed to \<^verbatim>\<open>client.Do\<close>, the metrics sent to \<^verbatim>\<open>ch\<close>, and the error returned
  (\<open>None\<close> for \<^verbatim>\<open>nil\<close>). \<^verbatim>\<open>fmt.Sprintf\<close> with \<^verbatim>\<open>%v\<close> of a string is the string. The error of
  \<^verbatim>\<open>json.Unmarshal\<close> is assigned to \<^verbatim>\<open>err\<close> in line 129 and never read.
\<close>

record outcome =
  sent :: "Request list"
  emitted :: "Metric list"
  returned :: "error option"

definition CollectFromAPI :: "'r world \<Rightarrow> Exporter \<Rightarrow> outcome" where
  "CollectFromAPI w e =
     (case NewRequest w MethodGet (''http://'' @ Endpoint e @ ''/control/stats'') of
        Inl err \<Rightarrow> \<lparr>sent = [], emitted = [], returned = Some err\<rparr>
      | Inr req0 \<Rightarrow>
          (let header = EncodeToString (Username e @ '':'' @ Password e);
               req = req0\<lparr>Header := Header_Set ''Authorization'' (''Basic '' @ header) (Header req0)\<rparr>
           in case client_Do w req of
                Inl err \<Rightarrow> \<lparr>sent = [req], emitted = [], returned = Some err\<rparr>
              | Inr response \<Rightarrow>
                  (case io_ReadAll w response of
                     Inl err \<Rightarrow> \<lparr>sent = [req], emitted = [], returned = Some err\<rparr>
                   | Inr body \<Rightarrow>
                       (let (res, err) = Unmarshal body Response_zero
                        in \<lparr>sent = [req], emitted = CollectFromAPI_samples res,
                             returned = None\<rparr>))))"

text \<open>
  \<open>Collect_metrics\<close> is the method \<^verbatim>\<open>Collect\<close> of the exporter (the name \<open>Collect\<close>
  is taken in HOL). It returns the metrics sent to \<^verbatim>\<open>ch\<close> and the errors printed to standard
  output. The \<^verbatim>\<open>if\<close> of lines 97-102 has no \<^verbatim>\<open>return\<close> and no \<^verbatim>\<open>else\<close>: lines 104-106
  run after it in both cases.
\<close>

definition Collect_metrics :: "'r world \<Rightarrow> Exporter \<Rightarrow> Metric list \<times> error list" where
  "Collect_metrics w e =
     (let r = CollectFromAPI w e;
          (ch, out) =
            (case returned r of
               Some err \<Rightarrow> (emitted r @ [MustNewConstMetric up GaugeValue 0 []], [err])
             | None \<Rightarrow> (emitted r, []))
      in (ch @ [MustNewConstMetric up GaugeValue 1 []], out))"

text \<open>The metrics of a channel that carry a given descriptor, and its other metrics.\<close>

definition samples_of :: "Desc \<Rightarrow> Metric list \<Rightarrow> Metric list" where
  "samples_of d ms = filter (\<lambda>m. desc m = d) ms"

definition samples_except :: "Desc list \<Rightarrow> Metric list \<Rightarrow> Metric list" where
  "samples_except ds ms = filter (\<lambda>m. desc m \<notin> set ds) ms"

section \<open>The configuration (lines 158-187)\<close>

text \<open>
  The five \<^verbatim>\<open>*string\<close> that \<^verbatim>\<open>flag.String\<close> returns are the fields of a record; a
  pointer to one of them is a value of \<open>var\<close>. The environment is a partial map from
  names to values; \<^verbatim>\<open>os.Getenv\<close> returns the empty string for a name that is not set.
\<close>

record vars =
  endpoint :: string
  username :: string
  password :: string
  address :: string
  path :: string

datatype var = P_endpoint | P_username | P_password | P_address | P_path

fun deref :: "var \<Rightarrow> vars \<Rightarrow> string" where
  "deref P_endpoint vs = endpoint vs"
| "deref P_username vs = username vs"
| "deref P_password vs = password vs"
| "deref P_address vs = address vs"
| "deref P_path vs = path vs"

fun assign :: "var \<Rightarrow> string \<Rightarrow> vars \<Rightarrow> vars" where
  "assign P_endpoint x vs = vs\<lparr>endpoint := x\<rparr>"
| "assign P_username x vs = vs\<lparr>username := x\<rparr>"
| "assign P_password x vs = vs\<lparr>password := x\<rparr>"
| "assign P_address x vs = vs\<lparr>address := x\<rparr>"
| "assign P_path x vs = vs\<lparr>path := x\<rparr>"

text \<open>The flags that lines 161-170 define, and the values their variables start with.\<close>

definition flags :: "(string \<times> var) list" where
  "flags =
     [(''endpoint'', P_endpoint), (''username'', P_username), (''password'', P_password),
      (''address'', P_address), (''path'', P_path)]"

definition flag_defaults :: vars where
  "flag_defaults =
     \<lparr>endpoint = [], username = [], password = [], address = '':8000'', path = ''/metrics''\<rparr>"

text \<open>The map of lines 173-179, as the list of its entries.\<close>

definition config :: "(string \<times> var) list" where
  "config =
     [(''ADGUARD_ENDPOINT'', P_endpoint), (''ADGUARD_USERNAME'', P_username),
      (''ADGUARD_PASSWORD'', P_password), (''ADGUARD_ADDRESS'', P_address),
      (''ADGUARD_PATH'', P_path)]"

definition os_Getenv :: "(string \<rightharpoonup> string) \<Rightarrow> string \<Rightarrow> string" where
  "os_Getenv env key = (case env key of Some v \<Rightarrow> v | None \<Rightarrow> [])"

text \<open>
  The loop of lines 181-185 over the entries of the map, in the order \<open>cfg\<close> lists
  them. Go leaves the order open; lemma \<open>range_config_order\<close> shows that the result
  is the same for every order.
\<close>

fun range_config :: "(string \<rightharpoonup> string) \<Rightarrow> (string \<times> var) list \<Rightarrow> vars \<Rightarrow> vars" where
  "range_config env [] vs = vs"
| "range_config env ((key, value) # cfg) vs =
     (let envValue = os_Getenv env key
      in if envValue \<noteq> [] then range_config env cfg (assign value envValue vs)
         else range_config env cfg vs)"

text \<open>
  \<^verbatim>\<open>flag.Parse()\<close> (line 187), on the command line read as the sequence of its
  settings \<^verbatim>\<open>-name=value\<close>: each one is stored in the variable of its flag, in order;
  a name that is not a defined flag ends the process (\<open>None\<close>).
\<close>

fun flag_Parse :: "(string \<times> string) list \<Rightarrow> vars \<Rightarrow> vars option" where
  "flag_Parse [] vs = Some vs"
| "flag_Parse ((name, x) # args) vs =
     (case map_of flags name of
        None \<Rightarrow> None
      | Some p \<Rightarrow> flag_Parse args (assign p x vs))"

text \<open>The variables when line 189 reads them.\<close>

definition main_config :: "(string \<rightharpoonup> string) \<Rightarrow> (string \<times> string) list \<Rightarrow> vars option" where
  "main_config env args = flag_Parse args (range_config env config flag_defaults)"

text \<open>The value the command line sets a flag to: that of its last setting.\<close>

fun passed :: "string \<Rightarrow> (string \<times> string) list \<Rightarrow> string option" where
  "passed name [] = None"
| "passed name ((n, x) # args) =
     (case passed name args of Some y \<Rightarrow> Some y | None \<Rightarrow> if n = name then Some x else None)"

section \<open>Notions the properties are stated with\<close>

text \<open>The request that lines 110-116 build for an exporter.\<close>

definition stats_url :: "Exporter \<Rightarrow> string" where
  "stats_url e = ''http://'' @ Endpoint e @ ''/control/stats''"

definition stats_request :: "Exporter \<Rightarrow> Request" where
  "stats_request e =
     \<lparr>Method = ''GET'', URL = stats_url e,
      Header = [(''Authorization'', ''Basic '' @ EncodeToString (Username e @ '':'' @ Password e))]\<rparr>"

text \<open>
  A scrape \<^emph>\<open>reads\<close> a body when the request is built, sent and answered, and the
  body of the answer is read to its end.
\<close>

definition reads :: "'r world \<Rightarrow> Exporter \<Rightarrow> body \<Rightarrow> bool" where
  "reads w e b =
     (url_Parse w (stats_url e) = None \<and>
      (case client_Do w (stats_request e) of
         Inl err \<Rightarrow> False
       | Inr response \<Rightarrow> io_ReadAll w response = Inr b))"

text \<open>The liveness metric with a given value.\<close>

definition up_sample :: "float64 \<Rightarrow> Metric" where
  "up_sample v = MustNewConstMetric up GaugeValue v []"

text \<open>What the scrape output shows of a metric: its name, its label values, its value.\<close>

definition exposition :: "Metric \<Rightarrow> string \<times> string list \<times> float64" where
  "exposition m = (fqName (desc m), labelValues m, val m)"

text \<open>The five metrics without label, carrying the given values.\<close>

definition fixed_samples :: "float64 \<Rightarrow> float64 \<Rightarrow> float64 \<Rightarrow> float64 \<Rightarrow> float64 \<Rightarrow> Metric list" where
  "fixed_samples q b t sb ss =
     [MustNewConstMetric dnsQueries GaugeValue q [],
      MustNewConstMetric blockedDNSqueries GaugeValue b [],
      MustNewConstMetric processingTime GaugeValue t [],
      MustNewConstMetric safeBrowsing GaugeValue sb [],
      MustNewConstMetric safeSearch GaugeValue ss []]"

text \<open>
  A response is well-formed, in the sense of the specification, when every element of
  its sequence of upstream times is a map with a single entry.
\<close>

definition well_formed :: "Response \<Rightarrow> bool" where
  "well_formed r = list_all (\<lambda>i. length i = 1) (UpstreamTime r)"

text \<open>The number of keys of a map.\<close>

definition key_count :: "gomap \<Rightarrow> nat" where
  "key_count m = card (fst ` set m)"

text \<open>
  The members of a body are those of the object it holds, none for any other body.
  A field is absent from an object when no key of the object is matched with its tag.
  A JSON value fits a field when it is \<^verbatim>\<open>null\<close> or of the JSON type that the Go type of
  the field is decoded from, numbers being in range.
\<close>

definition members :: "body \<Rightarrow> (string \<times> json) list" where
  "members b = (case b of Document (JObject ms) \<Rightarrow> ms | _ \<Rightarrow> [])"

definition absent :: "Response_field \<Rightarrow> (string \<times> json) list \<Rightarrow> bool" where
  "absent f ms = list_all (\<lambda>(k, v). lookup_field k \<noteq> Some f) ms"

definition fits_int :: "json \<Rightarrow> bool" where
  "fits_int j = (case j of JNull \<Rightarrow> True | JInt n \<Rightarrow> - (2 ^ 63) \<le> n \<and> n < 2 ^ 63 | _ \<Rightarrow> False)"

definition fits_float64 :: "json \<Rightarrow> bool" where
  "fits_float64 j =
     (case j of
        JNull \<Rightarrow> True
      | JInt n \<Rightarrow> round_to_53 (nat \<bar>n\<bar>) < 2 ^ 1024
      | JFloat x \<Rightarrow> x \<noteq> None
      | _ \<Rightarrow> False)"

definition fits_map :: "json \<Rightarrow> bool" where
  "fits_map j =
     (case j of
        JNull \<Rightarrow> True
      | JObject ms \<Rightarrow> list_all (\<lambda>(k, v). fits_float64 v) ms
      | _ \<Rightarrow> False)"

definition fits_slice :: "json \<Rightarrow> bool" where
  "fits_slice j = (case j of JNull \<Rightarrow> True | JArray js \<Rightarrow> list_all fits_map js | _ \<Rightarrow> False)"

fun fits :: "Response_field \<Rightarrow> json \<Rightarrow> bool" where
  "fits F_UpstreamTime j = fits_slice j"
| "fits F_ProcessingTime j = fits_float64 j"
| "fits f j = fits_int j"

definition expected_shape :: "(string \<times> json) list \<Rightarrow> bool" where
  "expected_shape ms =
     list_all (\<lambda>(k, v). case lookup_field k of None \<Rightarrow> True | Some f \<Rightarrow> fits f v) ms"

text \<open>
  A body has the expected shape when it is \<^verbatim>\<open>null\<close> or an object of the expected shape.
\<close>

definition expected_body :: "body \<Rightarrow> bool" where
  "expected_body b =
     (case b of
        Document JNull \<Rightarrow> True
      | Document (JObject ms) \<Rightarrow> expected_shape ms
      | _ \<Rightarrow> False)"

fun is_zero :: "Response_field \<Rightarrow> Response \<Rightarrow> bool" where
  "is_zero F_UpstreamTime r = (UpstreamTime r = [])"
| "is_zero F_AllDNSQueries r = (AllDNSQueries r = 0)"
| "is_zero F_BlockedDNSQueries r = (BlockedDNSQueries r = 0)"
| "is_zero F_ProcessingTime r = (ProcessingTime r = 0)"
| "is_zero F_SafeBrowsing r = (SafeBrowsing r = 0)"
| "is_zero F_SafeSearch r = (SafeSearch r = 0)"

section \<open>Example scrapes\<close>

definition exporter0 :: Exporter where
  "exporter0 = NewExporter ''127.0.0.1:3000'' ''user'' ''pass''"

text \<open>An upstream that answers every request with the body \<open>b\<close>.\<close>

definition serving :: "body \<Rightarrow> unit world" where
  "serving b =
     \<lparr>url_Parse = (\<lambda>u. None), client_Do = (\<lambda>req. Inr ()), io_ReadAll = (\<lambda>r. Inr b)\<rparr>"

text \<open>An upstream that is unreachable: \<^verbatim>\<open>client.Do\<close> returns an error.\<close>

definition unreachable :: "unit world" where
  "unreachable =
     \<lparr>url_Parse = (\<lambda>u. None),
      client_Do = (\<lambda>req. Inl (NetError ''connect: connection refused'')),
      io_ReadAll = (\<lambda>r. Inr Malformed)\<rparr>"

text \<open>
  \<^verbatim>\<open>http.NewRequest\<close> parses the URL and rejects, among others, a host name with a
  space in it. \<open>strict\<close> is \<open>serving\<close> with a check that stands for this one: it
  rejects a URL with a space.
\<close>

definition strict :: "body \<Rightarrow> unit world" where
  "strict b =
     (serving b)\<lparr>url_Parse :=
        (\<lambda>u. if CHR '' '' \<in> set u then Some (NetError ''invalid character in host name'')
             else None)\<rparr>"

text \<open>The body of the example of the specification (section 8).\<close>

definition stats_example :: json where
  "stats_example =
     JObject
       [(''num_dns_queries'', JInt 10),
        (''num_blocked_filtering'', JInt 2),
        (''avg_processing_time'', JFloat (Some (1 / 2))),
        (''num_replaced_safebrowsing'', JInt 1),
        (''num_replaced_safesearch'', JInt 0),
        (''top_upstreams_avg_time'', JArray [JObject [(''1.1.1.1'', JFloat (Some (1 / 50)))]])]"

text \<open>A body whose query counter is \<open>2 ^ 53 + 1\<close>, and the response decoded from it.\<close>

definition stats_large :: json where
  "stats_large = JObject [(''num_dns_queries'', JInt 9007199254740993)]"

definition response_large :: Response where
  "response_large = Response_zero\<lparr>AllDNSQueries := 9007199254740993\<rparr>"

text \<open>The response decoded from \<open>stats_example\<close>.\<close>

definition response_example :: Response where
  "response_example =
     \<lparr>UpstreamTime = [ [(''1.1.1.1'', 1 / 50)]], AllDNSQueries = 10, BlockedDNSQueries = 2,
      ProcessingTime = 1 / 2, SafeBrowsing = 1, SafeSearch = 0\<rparr>"

text \<open>A body whose first upstream entry has two addresses.\<close>

definition stats_two_keys :: json where
  "stats_two_keys =
     JObject
       [(''top_upstreams_avg_time'',
         JArray [JObject [(''1.1.1.1'', JFloat (Some (1 / 50))), (''8.8.8.8'', JFloat (Some (1 / 25)))],
                 JObject [(''9.9.9.9'', JFloat (Some (1 / 10)))]])]"

section \<open>Properties of the collector\<close>


lemmas desc_defs =
  up_def upstreamTime_def dnsQueries_def blockedDNSqueries_def processingTime_def
  safeBrowsing_def safeSearch_def NewDesc_def BuildFQName_def namespace_def

lemma NewRequest_Inr:
  "NewRequest w m u = Inr r \<longleftrightarrow> url_Parse w u = None \<and> r = \<lparr>Method = m, URL = u, Header = []\<rparr>"
  by (auto simp: NewRequest_def split: option.splits)

lemma CollectFromAPI_reads:
  assumes "reads w e b"
  shows "CollectFromAPI w e =
    \<lparr>sent = [stats_request e],
     emitted = CollectFromAPI_samples (fst (Unmarshal b Response_zero)),
     returned = None\<rparr>"
proof -
  from assms obtain response where
    u: "url_Parse w (stats_url e) = None" and
    d: "client_Do w (stats_request e) = Inr response" and
    r: "io_ReadAll w response = Inr b"
    by (auto simp: reads_def split: sum.splits)
  have n: "NewRequest w MethodGet (''http://'' @ Endpoint e @ ''/control/stats'')
      = Inr \<lparr>Method = MethodGet, URL = stats_url e, Header = []\<rparr>"
    using u by (simp add: NewRequest_Inr stats_url_def)
  have q: "\<lparr>Method = MethodGet, URL = stats_url e, Header = []\<rparr>
      \<lparr>Header := Header_Set ''Authorization''
          (''Basic '' @ EncodeToString (Username e @ '':'' @ Password e))
          (Header \<lparr>Method = MethodGet, URL = stats_url e, Header = []\<rparr>)\<rparr> = stats_request e"
    by (simp add: stats_request_def MethodGet_def Header_Set_def)
  show ?thesis
    apply (simp only: CollectFromAPI_def n sum.case Let_def q d r)
    apply (simp split: prod.splits)
    done
qed

lemma returned_None_iff:
  "returned (CollectFromAPI w e) = None \<longleftrightarrow> (\<exists>b. reads w e b)"
proof
  assume "\<exists>b. reads w e b"
  then show "returned (CollectFromAPI w e) = None"
    by (auto simp: CollectFromAPI_reads)
next
  assume r: "returned (CollectFromAPI w e) = None"
  have q: "\<lparr>Method = MethodGet, URL = stats_url e,
      Header = Header_Set ''Authorization''
        (''Basic '' @ EncodeToString (Username e @ '':'' @ Password e)) []\<rparr> = stats_request e"
    by (simp add: stats_request_def MethodGet_def Header_Set_def)
  from r have u: "url_Parse w (stats_url e) = None"
    by (auto simp: CollectFromAPI_def NewRequest_def stats_url_def split: option.splits)
  then have n: "NewRequest w MethodGet (''http://'' @ Endpoint e @ ''/control/stats'')
      = Inr \<lparr>Method = MethodGet, URL = stats_url e, Header = []\<rparr>"
    by (simp add: NewRequest_Inr stats_url_def)
  from r obtain response b where "client_Do w (stats_request e) = Inr response"
    and "io_ReadAll w response = Inr b"
    unfolding CollectFromAPI_def n
    by (simp only: sum.case Let_def Request.simps q) (auto split: sum.splits prod.splits)
  with u show "\<exists>b. reads w e b"
    by (auto simp: reads_def)
qed

lemma CollectFromAPI_failure:
  assumes "returned (CollectFromAPI w e) = Some err"
  shows "emitted (CollectFromAPI w e) = []"
  using assms
  by (auto simp: CollectFromAPI_def Let_def split: sum.splits prod.splits)

lemma Collect_failure:
  assumes "returned (CollectFromAPI w e) = Some err"
  shows "Collect_metrics w e = ([up_sample 0, up_sample 1], [err])"
  using assms CollectFromAPI_failure [OF assms]
  by (simp add: Collect_metrics_def up_sample_def)

lemma Collect_reads:
  assumes "reads w e b"
  shows "Collect_metrics w e =
    (CollectFromAPI_samples (fst (Unmarshal b Response_zero)) @ [up_sample 1], [])"
  by (simp add: Collect_metrics_def CollectFromAPI_reads [OF assms] up_sample_def)


lemma Describe_distinct: "distinct Describe"
  by (simp add: Describe_def desc_defs)

lemma desc_range_map: "m \<in> set (range_map i) \<Longrightarrow> desc m = upstreamTime"
  by (auto simp: range_map_def MustNewConstMetric_def)

lemma desc_range_UpstreamTime: "m \<in> set (range_UpstreamTime us) \<Longrightarrow> desc m = upstreamTime"
  by (auto simp: range_UpstreamTime_def dest: desc_range_map)

lemma filter_id: "(\<And>x. x \<in> set xs \<Longrightarrow> P x) \<Longrightarrow> filter P xs = xs"
  by (induction xs) auto

lemma filter_none: "(\<And>x. x \<in> set xs \<Longrightarrow> \<not> P x) \<Longrightarrow> filter P xs = []"
  by (induction xs) auto

lemma CollectFromAPI_samples_eq:
  "CollectFromAPI_samples r =
     range_UpstreamTime (UpstreamTime r) @
     fixed_samples (float64_of_int (AllDNSQueries r)) (float64_of_int (BlockedDNSQueries r))
       (ProcessingTime r) (float64_of_int (SafeBrowsing r)) (float64_of_int (SafeSearch r))"
  by (simp add: CollectFromAPI_samples_def fixed_samples_def)

lemma samples_of_fixed:
  "samples_of upstreamTime (fixed_samples q b t sb ss) = []"
  "samples_of up (fixed_samples q b t sb ss) = []"
  "samples_except [up, upstreamTime] (fixed_samples q b t sb ss) = fixed_samples q b t sb ss"
  by (simp_all add: samples_of_def samples_except_def fixed_samples_def MustNewConstMetric_def
      desc_defs)

lemma samples_of_range:
  "samples_of upstreamTime (range_UpstreamTime us) = range_UpstreamTime us"
  "samples_of up (range_UpstreamTime us) = []"
  "samples_except [up, upstreamTime] (range_UpstreamTime us) = []"
proof -
  show "samples_of upstreamTime (range_UpstreamTime us) = range_UpstreamTime us"
    unfolding samples_of_def by (rule filter_id) (simp add: desc_range_UpstreamTime)
  have "up \<noteq> upstreamTime" by (simp add: desc_defs)
  then show "samples_of up (range_UpstreamTime us) = []"
    unfolding samples_of_def by (intro filter_none) (auto dest: desc_range_UpstreamTime)
  show "samples_except [up, upstreamTime] (range_UpstreamTime us) = []"
    unfolding samples_except_def by (rule filter_none) (simp add: desc_range_UpstreamTime)
qed

lemma samples_of_up_sample:
  "samples_of up [up_sample v] = [up_sample v]"
  "samples_of upstreamTime [up_sample v] = []"
  "samples_except [up, upstreamTime] [up_sample v] = []"
  by (simp_all add: samples_of_def samples_except_def up_sample_def MustNewConstMetric_def
      desc_defs)

lemma samples_append:
  "samples_of d (xs @ ys) = samples_of d xs @ samples_of d ys"
  "samples_except ds (xs @ ys) = samples_except ds xs @ samples_except ds ys"
  by (simp_all add: samples_of_def samples_except_def)

lemma length_range_UpstreamTime:
  "length (range_UpstreamTime us) = sum_list (map length us)"
  by (induction us) (simp_all add: range_UpstreamTime_def range_map_def)

lemma key_count_distinct: "distinct (map fst m) \<Longrightarrow> key_count m = length m"
  unfolding key_count_def
  by (metis distinct_card length_map set_map)

lemma CollectFromAPI_samples_labels:
  "m \<in> set (CollectFromAPI_samples r) \<Longrightarrow>
   length (labelValues m) = length (variableLabels (desc m))"
  by (auto simp: CollectFromAPI_samples_def range_UpstreamTime_def range_map_def
      MustNewConstMetric_def desc_defs)

lemma bit_length_bound: "a < 2 ^ k \<Longrightarrow> bit_length a \<le> k"
proof (induction k arbitrary: a)
  case 0
  then show ?case by (simp add: bit_length.simps)
next
  case (Suc k)
  then have "a div 2 < 2 ^ k" by simp
  then have "bit_length (a div 2) \<le> k" by (rule Suc.IH)
  then show ?case by (subst bit_length.simps) simp
qed

lemma bit_length_0: "bit_length 0 = 0"
  by (simp add: bit_length.simps)

lemma bit_length_double: "0 < a \<Longrightarrow> bit_length (2 * a) = Suc (bit_length a)"
  by (subst bit_length.simps) simp

lemma bit_length_power: "bit_length (2 ^ k) = Suc k"
proof (induction k)
  case 0
  have "bit_length 1 = Suc (bit_length 0)" by (subst bit_length.simps) simp
  then show ?case by (simp add: bit_length_0)
next
  case (Suc k)
  then show ?case by (simp add: bit_length_double)
qed

lemma round_to_53_exact:
  assumes "a \<le> 2 ^ 53"
  shows "round_to_53 a = a"
proof (cases "a < 2 ^ 53")
  case True
  then have "bit_length a - 53 = 0"
    using bit_length_bound [of a 53] by simp
  then show ?thesis by (simp add: round_to_53_def)
next
  case False
  with assms have a: "a = 2 ^ 53" by simp
  have "bit_length a - 53 = 1" unfolding a bit_length_power by simp
  then show ?thesis by (simp add: round_to_53_def a)
qed

lemma float64_of_int_exact:
  assumes "\<bar>n\<bar> \<le> 2 ^ 53"
  shows "float64_of_int n = of_int n"
proof -
  have "nat \<bar>n\<bar> \<le> 2 ^ 53" using assms by (simp add: nat_le_iff)
  then have "round_to_53 (nat \<bar>n\<bar>) = nat \<bar>n\<bar>" by (rule round_to_53_exact)
  then have "sgn n * int (round_to_53 (nat \<bar>n\<bar>)) = n"
    by (simp add: mult_sgn_abs)
  then show ?thesis by (simp add: float64_of_int_def)
qed


lemma exposition_up_sample: "exposition (up_sample v) = (''adguardhome_up'', [], v)"
  by (simp add: exposition_def up_sample_def MustNewConstMetric_def desc_defs)

lemma exposition_fixed_samples:
  "map exposition (fixed_samples q b t sb ss) =
     [(''adguardhome_dns_queries'', [], q),
      (''adguardhome_blocked_dns_queries'', [], b),
      (''adguardhome_processing_time'', [], t),
      (''adguardhome_blocked_safe_browsing'', [], sb),
      (''adguardhome_blocked_safe_search'', [], ss)]"
  by (simp add: exposition_def fixed_samples_def MustNewConstMetric_def desc_defs)

lemma returned_unreachable:
  "returned (CollectFromAPI unreachable exporter0) = Some (NetError ''connect: connection refused'')"
  by (simp add: CollectFromAPI_def NewRequest_def unreachable_def Let_def)

text \<open>
  Claim C1. When the fetch fails, the collector is to send a single metric,
  \<^verbatim>\<open>adguardhome_up\<close> with the value 0. The code sends it and then, for want of a
  \<^verbatim>\<open>return\<close> after line 101, goes on to line 104 and sends \<^verbatim>\<open>adguardhome_up\<close> with the
  value 1 as well: the channel receives two liveness metrics. Shown here for an
  upstream that refuses the connection; lemmas \<open>returned_None_iff\<close> and
  \<open>Collect_failure\<close> show it for every scrape that does not read a body.
\<close>

theorem Collect_unreachable:
  "map exposition (fst (Collect_metrics unreachable exporter0)) =
     [(''adguardhome_up'', [], 0), (''adguardhome_up'', [], 1)]"
  by (simp add: Collect_failure [OF returned_unreachable] exposition_up_sample)

lemma reads_serving: "reads (serving b) e b"
  by (simp add: reads_def serving_def)

lemma float64_of_int_0: "float64_of_int 0 = 0"
  by (simp add: float64_of_int_def)

text \<open>
  Claim C3. For a body that is not JSON the scrape is to show \<^verbatim>\<open>adguardhome_up 0\<close> and
  nothing else. The code never reads the error of \<^verbatim>\<open>json.Unmarshal\<close> (line 129), while
  it returns each of the three errors before it: \<open>CollectFromAPI\<close> sends the five
  metrics of the untouched zero response and returns \<^verbatim>\<open>nil\<close>, and the collector
  sends \<^verbatim>\<open>adguardhome_up 1\<close>.
\<close>

theorem Collect_invalid_JSON:
  "snd (Unmarshal Malformed Response_zero) = Some SyntaxError \<and>
   map exposition (fst (Collect_metrics (serving Malformed) exporter0)) =
     [(''adguardhome_dns_queries'', [], 0),
      (''adguardhome_blocked_dns_queries'', [], 0),
      (''adguardhome_processing_time'', [], 0),
      (''adguardhome_blocked_safe_browsing'', [], 0),
      (''adguardhome_blocked_safe_search'', [], 0),
      (''adguardhome_up'', [], 1)]"
proof -
  have u: "Unmarshal Malformed Response_zero = (Response_zero, Some SyntaxError)"
    by (simp add: Unmarshal_def)
  have "CollectFromAPI_samples Response_zero = fixed_samples 0 0 0 0 0"
    by (simp add: CollectFromAPI_samples_eq Response_zero_def range_UpstreamTime_def
        float64_of_int_0)
  then show ?thesis
    by (simp add: Collect_reads [OF reads_serving] u exposition_fixed_samples
        exposition_up_sample)
qed


lemma map_store_keys:
  "map fst (map_store k x m) = (if k \<in> set (map fst m) then map fst m else map fst m @ [k])"
proof -
  have "map fst (map (\<lambda>(k', x'). if k' = k then (k', x) else (k', x')) m) = map fst m"
    by (induction m) auto
  then show ?thesis by (simp add: map_store_def)
qed

lemma map_store_distinct:
  "distinct (map fst m) \<Longrightarrow> distinct (map fst (map_store k x m))"
  by (simp add: map_store_keys)

lemma decode_members_distinct:
  "distinct (map fst m) \<Longrightarrow> distinct (map fst (fst (decode_members ms m)))"
proof (induction ms arbitrary: m)
  case Nil
  then show ?case by simp
next
  case (Cons a ms)
  obtain k v where a: "a = (k, v)" by (cases a)
  obtain x e where d: "decode_float64 v 0 = (x, e)" by (cases "decode_float64 v 0")
  have "distinct (map fst (fst (decode_members ms (map_store k x m))))"
    using Cons.prems by (intro Cons.IH map_store_distinct)
  then show ?case by (auto simp: a d split: prod.splits)
qed

lemma decode_map_distinct: "distinct (map fst (fst (decode_map j [])))"
  by (cases j) (simp_all add: decode_map_def decode_members_distinct)

lemma decode_elements_distinct:
  "list_all (\<lambda>m. distinct (map fst m)) (fst (decode_elements js))"
proof (induction js)
  case Nil
  then show ?case by simp
next
  case (Cons j js)
  then show ?case
    using decode_map_distinct [of j] by (auto split: prod.splits)
qed

lemma decode_slice_distinct:
  "list_all (\<lambda>m. distinct (map fst m)) cur \<Longrightarrow>
   list_all (\<lambda>m. distinct (map fst m)) (fst (decode_slice j cur))"
  by (cases j) (simp_all add: decode_slice_def decode_elements_distinct)

lemma store_field_distinct:
  "list_all (\<lambda>m. distinct (map fst m)) (UpstreamTime r) \<Longrightarrow>
   list_all (\<lambda>m. distinct (map fst m)) (UpstreamTime (fst (store_field f v r)))"
proof (cases f)
  case F_UpstreamTime
  assume "list_all (\<lambda>m. distinct (map fst m)) (UpstreamTime r)"
  then have "list_all (\<lambda>m. distinct (map fst m)) (fst (decode_slice v (UpstreamTime r)))"
    by (rule decode_slice_distinct)
  then show ?thesis by (auto simp: F_UpstreamTime store_field_def split: prod.splits)
qed (auto simp: store_field_def split: prod.splits)

lemma decode_object_distinct:
  "list_all (\<lambda>m. distinct (map fst m)) (UpstreamTime r) \<Longrightarrow>
   list_all (\<lambda>m. distinct (map fst m)) (UpstreamTime (fst (decode_object ms r)))"
proof (induction ms arbitrary: r)
  case Nil
  then show ?case by simp
next
  case (Cons a ms)
  obtain k v where a: "a = (k, v)" by (cases a)
  show ?case
  proof (cases "lookup_field k")
    case None
    then show ?thesis using Cons by (simp add: a)
  next
    case (Some f)
    have "list_all (\<lambda>m. distinct (map fst m))
        (UpstreamTime (fst (decode_object ms (fst (store_field f v r)))))"
      using Cons.prems by (intro Cons.IH store_field_distinct)
    then show ?thesis by (auto simp: a Some split: prod.splits)
  qed
qed

lemma Unmarshal_distinct:
  "list_all (\<lambda>m. distinct (map fst m)) (UpstreamTime (fst (Unmarshal b Response_zero)))"
proof -
  have z: "list_all (\<lambda>m. distinct (map fst m)) (UpstreamTime Response_zero)"
    by (simp add: Response_zero_def)
  show ?thesis
  proof (cases b)
    case Malformed
    then show ?thesis using z by (simp add: Unmarshal_def)
  next
    case (Document j)
    then show ?thesis
      using z decode_object_distinct [OF z] by (cases j) (simp_all add: Unmarshal_def)
  qed
qed

lemma Unmarshal_key_count:
  "map key_count (UpstreamTime (fst (Unmarshal b Response_zero))) =
   map length (UpstreamTime (fst (Unmarshal b Response_zero)))"
proof (rule map_cong [OF refl])
  fix m assume "m \<in> set (UpstreamTime (fst (Unmarshal b Response_zero)))"
  then have "distinct (map fst m)"
    using Unmarshal_distinct [of b] by (simp add: list_all_iff)
  then show "key_count m = length m" by (rule key_count_distinct)
qed

lemma Collect_samples_of:
  assumes "reads w e b" and "fst (Unmarshal b Response_zero) = res"
  shows "samples_of up (fst (Collect_metrics w e)) = [up_sample 1]"
    and "samples_of upstreamTime (fst (Collect_metrics w e)) = range_UpstreamTime (UpstreamTime res)"
    and "samples_except [up, upstreamTime] (fst (Collect_metrics w e)) =
      fixed_samples (float64_of_int (AllDNSQueries res)) (float64_of_int (BlockedDNSQueries res))
       (ProcessingTime res) (float64_of_int (SafeBrowsing res)) (float64_of_int (SafeSearch res))"
  using assms(2)
  by (simp_all add: Collect_reads [OF assms(1)] CollectFromAPI_samples_eq samples_append
      samples_of_fixed samples_of_range samples_of_up_sample)

lemma length_fixed_samples: "length (fixed_samples q b t sb ss) = 5"
  by (simp add: fixed_samples_def)

lemma Unmarshal_stats_example:
  "Unmarshal (Document stats_example) Response_zero =
     (\<lparr>UpstreamTime = [ [(''1.1.1.1'', 1 / 50)]], AllDNSQueries = 10, BlockedDNSQueries = 2,
       ProcessingTime = 1 / 2, SafeBrowsing = 1, SafeSearch = 0\<rparr>, None)"
  by (simp add: Unmarshal_def stats_example_def lookup_field_def Response_tags_def
      store_field_def decode_int_def decode_float64_def decode_slice_def decode_map_def
      map_store_def first_error_def Response_zero_def)

text \<open>
  Claim C2, as amended. When the scrape reads a body and the body is decoded without
  error, the collector sends the liveness metric exactly once, with the value 1, and
  besides it exactly five metrics with a fixed name (not six) and one
  \<^verbatim>\<open>upstream_responses\<close> metric for each key of each element of the sequence of upstream
  times (one for each element when every element has a single key).
\<close>

theorem Collect_success_counts:
  assumes "reads w e b" and "Unmarshal b Response_zero = (res, None)"
  shows "samples_of up (fst (Collect_metrics w e)) = [up_sample 1] \<and>
         length (samples_except [up, upstreamTime] (fst (Collect_metrics w e))) = 5 \<and>
         length (samples_of upstreamTime (fst (Collect_metrics w e))) =
           sum_list (map key_count (UpstreamTime res))"
proof -
  have r: "fst (Unmarshal b Response_zero) = res" using assms(2) by simp
  have "map key_count (UpstreamTime res) = map length (UpstreamTime res)"
    using Unmarshal_key_count [of b] unfolding r .
  then have "sum_list (map key_count (UpstreamTime res)) = sum_list (map length (UpstreamTime res))"
    by (rule arg_cong)
  then show ?thesis
    by (simp add: Collect_samples_of [OF assms(1) r] length_fixed_samples
        length_range_UpstreamTime)
qed


text \<open>
  Witness of C2, as amended: the example of section 8 of the specification.
\<close>

theorem Collect_success_counts_witness:
  "reads (serving (Document stats_example)) exporter0 (Document stats_example) \<and>
   snd (Unmarshal (Document stats_example) Response_zero) = None \<and>
   samples_of up (fst (Collect_metrics (serving (Document stats_example)) exporter0)) =
     [up_sample 1] \<and>
   length (samples_except [up, upstreamTime]
     (fst (Collect_metrics (serving (Document stats_example)) exporter0))) = 5 \<and>
   length (samples_of upstreamTime
     (fst (Collect_metrics (serving (Document stats_example)) exporter0))) = 1"
proof -
  have k: "key_count [(''1.1.1.1'', 1 / 50)] = 1" by (simp add: key_count_def)
  show ?thesis
    using Collect_success_counts [OF reads_serving Unmarshal_stats_example, of exporter0]
    by (simp add: reads_serving Unmarshal_stats_example k)
qed

text \<open>
  Counterexample to C2 as stated. The scrape of the example of the specification
  succeeds; it sends one liveness metric and one upstream metric, and the number of
  its other metrics is not six: the channel receives seven metrics, where the claim
  counts eight (one, six and one).
\<close>

theorem six_fixed_samples_counterexample:
  "returned (CollectFromAPI (serving (Document stats_example)) exporter0) = None \<and>
   length (samples_of up (fst (Collect_metrics (serving (Document stats_example)) exporter0))) = 1 \<and>
   length (samples_of upstreamTime
     (fst (Collect_metrics (serving (Document stats_example)) exporter0))) = 1 \<and>
   length (samples_except [up, upstreamTime]
     (fst (Collect_metrics (serving (Document stats_example)) exporter0))) \<noteq> 6 \<and>
   length (fst (Collect_metrics (serving (Document stats_example)) exporter0)) = 7"
proof -
  have r: "fst (Unmarshal (Document stats_example) Response_zero) =
      \<lparr>UpstreamTime = [ [(''1.1.1.1'', 1 / 50)]], AllDNSQueries = 10, BlockedDNSQueries = 2,
       ProcessingTime = 1 / 2, SafeBrowsing = 1, SafeSearch = 0\<rparr>"
    by (simp add: Unmarshal_stats_example)
  let ?ch = "fst (Collect_metrics (serving (Document stats_example)) exporter0)"
  have 1: "returned (CollectFromAPI (serving (Document stats_example)) exporter0) = None"
    by (simp add: CollectFromAPI_reads [OF reads_serving])
  have 2: "length (samples_of up ?ch) = 1"
    by (simp add: Collect_samples_of(1) [OF reads_serving r])
  have 3: "length (samples_of upstreamTime ?ch) = 1"
    by (simp add: Collect_samples_of(2) [OF reads_serving r] length_range_UpstreamTime)
  have 4: "length (samples_except [up, upstreamTime] ?ch) \<noteq> 6"
    by (simp add: Collect_samples_of(3) [OF reads_serving r] length_fixed_samples)
  have 5: "length ?ch = 7"
    by (simp add: Collect_reads [OF reads_serving] r CollectFromAPI_samples_eq
        length_fixed_samples length_range_UpstreamTime)
  from 1 2 3 4 5 show ?thesis by blast
qed

text \<open>
  Claim C6. When the response decoded from the body has an empty sequence of upstream
  times, the scrape does not fail, sends no \<^verbatim>\<open>upstream_responses\<close> metric, and sends the
  five metrics with a fixed name, followed by the liveness metric.
\<close>

theorem empty_UpstreamTime:
  assumes "reads w e b" and "Unmarshal b Response_zero = (res, uerr)"
    and "UpstreamTime res = []"
  shows "returned (CollectFromAPI w e) = None \<and>
         samples_of upstreamTime (fst (Collect_metrics w e)) = [] \<and>
         fst (Collect_metrics w e) =
           fixed_samples (float64_of_int (AllDNSQueries res))
             (float64_of_int (BlockedDNSQueries res)) (ProcessingTime res)
             (float64_of_int (SafeBrowsing res)) (float64_of_int (SafeSearch res)) @
           [up_sample 1]"
proof -
  have r: "fst (Unmarshal b Response_zero) = res" using assms(2) by simp
  have 1: "returned (CollectFromAPI w e) = None"
    by (simp add: CollectFromAPI_reads [OF assms(1)])
  have 2: "samples_of upstreamTime (fst (Collect_metrics w e)) = []"
    by (simp add: Collect_samples_of(2) [OF assms(1) r] assms(3) range_UpstreamTime_def)
  have 3: "fst (Collect_metrics w e) =
           fixed_samples (float64_of_int (AllDNSQueries res))
             (float64_of_int (BlockedDNSQueries res)) (ProcessingTime res)
             (float64_of_int (SafeBrowsing res)) (float64_of_int (SafeSearch res)) @
           [up_sample 1]"
    by (simp add: Collect_reads [OF assms(1)] r CollectFromAPI_samples_eq assms(3)
        range_UpstreamTime_def)
  from 1 2 3 show ?thesis by blast
qed

lemma Unmarshal_empty_sequence:
  "Unmarshal (Document (JObject [(''top_upstreams_avg_time'', JArray []),
      (''num_dns_queries'', JInt 10)])) Response_zero =
     (Response_zero\<lparr>AllDNSQueries := 10\<rparr>, None)"
  by (simp add: Unmarshal_def lookup_field_def Response_tags_def
      store_field_def decode_int_def decode_slice_def first_error_def Response_zero_def)

lemma float64_of_int_10: "float64_of_int 10 = 10"
  using float64_of_int_exact [of 10] by simp

text \<open>
  Witness of C6: a body with an empty array and a query counter of 10.
\<close>

theorem empty_UpstreamTime_witness:
  "reads (serving (Document (JObject [(''top_upstreams_avg_time'', JArray []),
      (''num_dns_queries'', JInt 10)]))) exporter0
     (Document (JObject [(''top_upstreams_avg_time'', JArray []), (''num_dns_queries'', JInt 10)])) \<and>
   UpstreamTime (fst (Unmarshal (Document (JObject [(''top_upstreams_avg_time'', JArray []),
      (''num_dns_queries'', JInt 10)])) Response_zero)) = [] \<and>
   returned (CollectFromAPI (serving (Document (JObject [(''top_upstreams_avg_time'', JArray []),
      (''num_dns_queries'', JInt 10)]))) exporter0) = None \<and>
   map exposition (fst (Collect_metrics (serving (Document (JObject
      [(''top_upstreams_avg_time'', JArray []), (''num_dns_queries'', JInt 10)]))) exporter0)) =
     [(''adguardhome_dns_queries'', [], 10),
      (''adguardhome_blocked_dns_queries'', [], 0),
      (''adguardhome_processing_time'', [], 0),
      (''adguardhome_blocked_safe_browsing'', [], 0),
      (''adguardhome_blocked_safe_search'', [], 0),
      (''adguardhome_up'', [], 1)]"
proof -
  have u: "UpstreamTime (Response_zero\<lparr>AllDNSQueries := 10\<rparr>) = []"
    by (simp add: Response_zero_def)
  have z: "AllDNSQueries (Response_zero\<lparr>AllDNSQueries := 10\<rparr>) = 10"
    "BlockedDNSQueries (Response_zero\<lparr>AllDNSQueries := 10\<rparr>) = 0"
    "ProcessingTime (Response_zero\<lparr>AllDNSQueries := 10\<rparr>) = 0"
    "SafeBrowsing (Response_zero\<lparr>AllDNSQueries := 10\<rparr>) = 0"
    "SafeSearch (Response_zero\<lparr>AllDNSQueries := 10\<rparr>) = 0"
    by (simp_all add: Response_zero_def)
  show ?thesis
    using empty_UpstreamTime [OF reads_serving Unmarshal_empty_sequence u, of exporter0]
    by (simp add: reads_serving Unmarshal_empty_sequence u z exposition_fixed_samples
        exposition_up_sample float64_of_int_10 float64_of_int_0)
qed

text \<open>
  Claim C10. The collector sends one \<^verbatim>\<open>upstream_responses\<close> metric for each key of each
  element of the sequence, labelled with the key and carrying its value; their number
  is the sum of the numbers of keys of the elements, whatever the length of the
  sequence.
\<close>

theorem one_sample_per_key:
  assumes "reads w e b" and "Unmarshal b Response_zero = (res, uerr)"
  shows "samples_of upstreamTime (fst (Collect_metrics w e)) =
           concat (map (map (\<lambda>(k, v). MustNewConstMetric upstreamTime GaugeValue v [k]))
             (UpstreamTime res)) \<and>
         length (samples_of upstreamTime (fst (Collect_metrics w e))) =
           sum_list (map key_count (UpstreamTime res))"
proof -
  have r: "fst (Unmarshal b Response_zero) = res" using assms(2) by simp
  have "map key_count (UpstreamTime res) = map length (UpstreamTime res)"
    using Unmarshal_key_count [of b] unfolding r .
  then have "sum_list (map key_count (UpstreamTime res)) = sum_list (map length (UpstreamTime res))"
    by (rule arg_cong)
  moreover have "range_UpstreamTime (UpstreamTime res) =
      concat (map (map (\<lambda>(k, v). MustNewConstMetric upstreamTime GaugeValue v [k]))
             (UpstreamTime res))"
    unfolding range_UpstreamTime_def range_map_def by (rule arg_cong [where f = concat]) (rule map_cong, simp_all)
  ultimately show ?thesis
    using length_range_UpstreamTime [of "UpstreamTime res"]
    by (simp add: Collect_samples_of(2) [OF assms(1) r])
qed

lemma Unmarshal_two_keys:
  "Unmarshal (Document stats_two_keys) Response_zero =
     (Response_zero\<lparr>UpstreamTime :=
        [ [(''1.1.1.1'', 1 / 50), (''8.8.8.8'', 1 / 25)], [(''9.9.9.9'', 1 / 10)]]\<rparr>, None)"
  by (simp add: Unmarshal_def stats_two_keys_def lookup_field_def Response_tags_def
      store_field_def decode_float64_def decode_slice_def decode_map_def
      map_store_def first_error_def Response_zero_def)

text \<open>
  Witness of C10: a sequence of two elements, with two keys and one key, gives three
  metrics.
\<close>

theorem one_sample_per_key_witness:
  "reads (serving (Document stats_two_keys)) exporter0 (Document stats_two_keys) \<and>
   length (UpstreamTime (fst (Unmarshal (Document stats_two_keys) Response_zero))) = 2 \<and>
   map exposition (samples_of upstreamTime
     (fst (Collect_metrics (serving (Document stats_two_keys)) exporter0))) =
     [(''adguardhome_upstream_responses'', [''1.1.1.1''], 1 / 50),
      (''adguardhome_upstream_responses'', [''8.8.8.8''], 1 / 25),
      (''adguardhome_upstream_responses'', [''9.9.9.9''], 1 / 10)] \<and>
   length (samples_of upstreamTime
     (fst (Collect_metrics (serving (Document stats_two_keys)) exporter0))) = 3"
proof -
  have k: "key_count [(''1.1.1.1'', 1 / 50), (''8.8.8.8'', 1 / 25)] = 2"
    "key_count [(''9.9.9.9'', 1 / 10)] = 1"
    by (simp_all add: key_count_def)
  show ?thesis
    using one_sample_per_key [OF reads_serving Unmarshal_two_keys, of exporter0]
    by (simp add: reads_serving Unmarshal_two_keys k exposition_def MustNewConstMetric_def
        desc_defs)
qed


text \<open>
  Claim C7, as amended. Whenever \<^verbatim>\<open>http.NewRequest\<close> accepts the URL, the fetch hands
  exactly one request to \<^verbatim>\<open>client.Do\<close>: a \<^verbatim>\<open>GET\<close> of \<^verbatim>\<open>http://{endpoint}/control/stats\<close>
  whose only header is \<^verbatim>\<open>Authorization: Basic\<close> followed by the base64 encoding of the
  username, a colon and the password. (Requests that the HTTP client may add on its
  own to follow a redirect are below the level of this model.)
\<close>

theorem one_GET_request:
  assumes "url_Parse w (''http://'' @ Endpoint e @ ''/control/stats'') = None"
  shows "sent (CollectFromAPI w e) =
     [\<lparr>Method = ''GET'', URL = ''http://'' @ Endpoint e @ ''/control/stats'',
       Header = [(''Authorization'',
                  ''Basic '' @ EncodeToString (Username e @ '':'' @ Password e))]\<rparr>]"
proof -
  have n: "NewRequest w MethodGet (''http://'' @ Endpoint e @ ''/control/stats'')
      = Inr \<lparr>Method = MethodGet, URL = ''http://'' @ Endpoint e @ ''/control/stats'', Header = []\<rparr>"
    using assms by (simp add: NewRequest_Inr)
  show ?thesis
    unfolding CollectFromAPI_def n
    by (simp add: Let_def MethodGet_def Header_Set_def split: sum.splits prod.splits)
qed

lemma EncodeToString_user_pass: "EncodeToString ''user:pass'' = ''dXNlcjpwYXNz''"
  by (simp add: EncodeToString_def sextet_def encodeStd_def)

text \<open>
  Witness of C7, as amended: the credentials \<^verbatim>\<open>user:pass\<close> are sent as
  \<^verbatim>\<open>Basic dXNlcjpwYXNz\<close>.
\<close>

theorem one_GET_request_witness:
  "url_Parse (strict (Document stats_example)) (''http://'' @ Endpoint exporter0 @ ''/control/stats'')
     = None \<and>
   sent (CollectFromAPI (strict (Document stats_example)) exporter0) =
     [\<lparr>Method = ''GET'', URL = ''http://127.0.0.1:3000/control/stats'',
       Header = [(''Authorization'', ''Basic dXNlcjpwYXNz'')]\<rparr>]"
proof -
  have u: "url_Parse (strict (Document stats_example))
      (''http://'' @ Endpoint exporter0 @ ''/control/stats'') = None"
    by (simp add: strict_def serving_def exporter0_def NewExporter_def)
  have e: "EncodeToString (Username exporter0 @ '':'' @ Password exporter0) = ''dXNlcjpwYXNz''"
    using EncodeToString_user_pass by (simp add: exporter0_def NewExporter_def)
  show ?thesis
    using one_GET_request [OF u] u
    by (simp only: e) (simp add: exporter0_def NewExporter_def)
qed

lemma no_request_when_rejected:
  assumes "url_Parse w (''http://'' @ Endpoint e @ ''/control/stats'') = Some err"
  shows "sent (CollectFromAPI w e) = []" and "returned (CollectFromAPI w e) = Some err"
  using assms by (simp_all add: CollectFromAPI_def NewRequest_def)

text \<open>
  Counterexample to C7 as stated (for every configuration): with the endpoint
  \<^verbatim>\<open>bad host\<close> the URL is rejected, line 112 returns, and no request is sent.
\<close>

theorem rejected_URL_counterexample:
  "sent (CollectFromAPI (strict (Document stats_example))
     (NewExporter ''bad host'' ''user'' ''pass'')) = []"
proof -
  have "url_Parse (strict (Document stats_example))
      (''http://'' @ Endpoint (NewExporter ''bad host'' ''user'' ''pass'') @ ''/control/stats'')
      = Some (NetError ''invalid character in host name'')"
    by (simp add: strict_def serving_def NewExporter_def)
  then show ?thesis by (rule no_request_when_rejected)
qed

lemma range_single:
  "list_all (\<lambda>i. length i = 1) us \<Longrightarrow>
   range_UpstreamTime us =
     map (\<lambda>i. MustNewConstMetric upstreamTime GaugeValue (snd (hd i)) [fst (hd i)]) us"
proof (induction us)
  case Nil
  then show ?case by (simp add: range_UpstreamTime_def)
next
  case (Cons i us)
  then obtain k v where i: "i = [(k, v)]"
    by (cases i) (auto simp: length_Suc_conv)
  have "range_map i = [MustNewConstMetric upstreamTime GaugeValue v [k]]"
    by (simp add: i range_map_def)
  then show ?case using Cons by (simp add: range_UpstreamTime_def i)
qed

text \<open>
  Claim C4, as amended. For a well-formed response whose four counters are at most
  \<open>2 ^ 53\<close> in absolute value, the metrics of lines 131-153 are exactly: one
  \<^verbatim>\<open>upstream_responses\<close> metric for each element of the sequence, labelled with its
  address and carrying its time, then the five metrics without label, whose values are
  the fields of the response.
\<close>

theorem samples_verbatim:
  assumes "well_formed r"
    and "\<bar>AllDNSQueries r\<bar> \<le> 2 ^ 53" and "\<bar>BlockedDNSQueries r\<bar> \<le> 2 ^ 53"
    and "\<bar>SafeBrowsing r\<bar> \<le> 2 ^ 53" and "\<bar>SafeSearch r\<bar> \<le> 2 ^ 53"
  shows "CollectFromAPI_samples r =
     map (\<lambda>i. MustNewConstMetric upstreamTime GaugeValue (snd (hd i)) [fst (hd i)])
       (UpstreamTime r) @
     [MustNewConstMetric dnsQueries GaugeValue (of_int (AllDNSQueries r)) [],
      MustNewConstMetric blockedDNSqueries GaugeValue (of_int (BlockedDNSQueries r)) [],
      MustNewConstMetric processingTime GaugeValue (ProcessingTime r) [],
      MustNewConstMetric safeBrowsing GaugeValue (of_int (SafeBrowsing r)) [],
      MustNewConstMetric safeSearch GaugeValue (of_int (SafeSearch r)) []]"
proof -
  have "range_UpstreamTime (UpstreamTime r) =
     map (\<lambda>i. MustNewConstMetric upstreamTime GaugeValue (snd (hd i)) [fst (hd i)])
       (UpstreamTime r)"
    using assms(1) unfolding well_formed_def by (rule range_single)
  then show ?thesis
    by (simp add: CollectFromAPI_samples_def float64_of_int_exact [OF assms(2)]
        float64_of_int_exact [OF assms(3)] float64_of_int_exact [OF assms(4)]
        float64_of_int_exact [OF assms(5)])
qed

text \<open>
  Witness of C4, as amended: the response of the example of the specification.
\<close>

theorem samples_verbatim_witness:
  "well_formed response_example \<and>
   \<bar>AllDNSQueries response_example\<bar> \<le> 2 ^ 53 \<and>
   \<bar>BlockedDNSQueries response_example\<bar> \<le> 2 ^ 53 \<and>
   \<bar>SafeBrowsing response_example\<bar> \<le> 2 ^ 53 \<and>
   \<bar>SafeSearch response_example\<bar> \<le> 2 ^ 53 \<and>
   map exposition (CollectFromAPI_samples response_example) =
     [(''adguardhome_upstream_responses'', [''1.1.1.1''], 1 / 50),
      (''adguardhome_dns_queries'', [], 10),
      (''adguardhome_blocked_dns_queries'', [], 2),
      (''adguardhome_processing_time'', [], 1 / 2),
      (''adguardhome_blocked_safe_browsing'', [], 1),
      (''adguardhome_blocked_safe_search'', [], 0)]"
proof -
  have w: "well_formed response_example"
    by (simp add: well_formed_def response_example_def)
  have b: "\<bar>AllDNSQueries response_example\<bar> \<le> 2 ^ 53"
    "\<bar>BlockedDNSQueries response_example\<bar> \<le> 2 ^ 53"
    "\<bar>SafeBrowsing response_example\<bar> \<le> 2 ^ 53"
    "\<bar>SafeSearch response_example\<bar> \<le> 2 ^ 53"
    by (simp_all add: response_example_def)
  have "map exposition (CollectFromAPI_samples response_example) =
     [(''adguardhome_upstream_responses'', [''1.1.1.1''], 1 / 50),
      (''adguardhome_dns_queries'', [], 10),
      (''adguardhome_blocked_dns_queries'', [], 2),
      (''adguardhome_processing_time'', [], 1 / 2),
      (''adguardhome_blocked_safe_browsing'', [], 1),
      (''adguardhome_blocked_safe_search'', [], 0)]"
    unfolding samples_verbatim [OF w b]
    by (simp add: response_example_def exposition_def MustNewConstMetric_def desc_defs)
  with w b show ?thesis by blast
qed

lemma bit_length_lower: "2 ^ k \<le> a \<Longrightarrow> k < bit_length a"
proof (induction k arbitrary: a)
  case 0
  then have "a \<noteq> 0" by simp
  then show ?case by (subst bit_length.simps) simp
next
  case (Suc k)
  then have "2 ^ k \<le> a div 2" by simp
  then have "k < bit_length (a div 2)" by (rule Suc.IH)
  moreover have "(0::nat) < 2 ^ Suc k" by simp
  then have "a \<noteq> 0" using Suc.prems by linarith
  ultimately show ?case by (subst bit_length.simps) simp
qed

lemma bit_length_eq: "2 ^ k \<le> a \<Longrightarrow> a < 2 ^ Suc k \<Longrightarrow> bit_length a = Suc k"
  using bit_length_lower [of k a] bit_length_bound [of a "Suc k"] by simp

lemma round_to_53_large: "round_to_53 9007199254740993 = 9007199254740992"
proof -
  have "bit_length 9007199254740993 = Suc 53"
    by (rule bit_length_eq) simp_all
  then have e: "bit_length 9007199254740993 - 53 = 1" by simp
  show ?thesis
    unfolding round_to_53_def e by (simp add: Let_def)
qed

lemma float64_of_int_large: "float64_of_int 9007199254740993 = 9007199254740992"
  by (simp add: float64_of_int_def round_to_53_large)


text \<open>
  Counterexample to C4 as stated (values verbatim, no rounding): the body
  \<^verbatim>\<open>{"num_dns_queries": 9007199254740993}\<close> is decoded without error to a well-formed
  response, and \<^verbatim>\<open>float64(res.AllDNSQueries)\<close> of line 140 rounds the counter: the metric
  carries 9007199254740992.
\<close>

theorem rounded_counter_counterexample:
  "Unmarshal (Document stats_large) Response_zero = (response_large, None) \<and>
   well_formed response_large \<and>
   AllDNSQueries response_large = 9007199254740993 \<and>
   map exposition (samples_of dnsQueries (CollectFromAPI_samples response_large)) =
     [(''adguardhome_dns_queries'', [], 9007199254740992)]"
proof -
  have 1: "Unmarshal (Document stats_large) Response_zero = (response_large, None)"
    by (simp add: Unmarshal_def stats_large_def response_large_def lookup_field_def
        Response_tags_def store_field_def decode_int_def first_error_def Response_zero_def)
  have 2: "well_formed response_large"
    by (simp add: well_formed_def response_large_def Response_zero_def)
  have 3: "AllDNSQueries response_large = 9007199254740993"
    by (simp add: response_large_def)
  have "samples_of dnsQueries (CollectFromAPI_samples response_large) =
      [MustNewConstMetric dnsQueries GaugeValue (float64_of_int 9007199254740993) []]"
    by (simp add: CollectFromAPI_samples_def samples_of_def response_large_def
        Response_zero_def range_UpstreamTime_def MustNewConstMetric_def desc_defs)
  then have 4: "map exposition (samples_of dnsQueries (CollectFromAPI_samples response_large)) =
     [(''adguardhome_dns_queries'', [], 9007199254740992)]"
    by (simp add: float64_of_int_large exposition_def MustNewConstMetric_def desc_defs)
  from 1 2 3 4 show ?thesis by blast
qed


section \<open>Properties of the configuration\<close>

lemma deref_assign: "deref p (assign q x vs) = (if p = q then x else deref p vs)"
  by (cases p; cases q) simp_all

lemma vars_eqI:
  fixes a b :: vars
  assumes "\<And>p. deref p a = deref p b"
  shows "a = b"
proof -
  have "endpoint a = endpoint b" using assms [of P_endpoint] by simp
  moreover have "username a = username b" using assms [of P_username] by simp
  moreover have "password a = password b" using assms [of P_password] by simp
  moreover have "address a = address b" using assms [of P_address] by simp
  moreover have "path a = path b" using assms [of P_path] by simp
  ultimately show ?thesis by simp
qed

lemma range_config_other:
  "p \<notin> snd ` set cfg \<Longrightarrow> deref p (range_config env cfg vs) = deref p vs"
proof (induction cfg arbitrary: vs)
  case Nil
  then show ?case by simp
next
  case (Cons a cfg)
  obtain k q where a: "a = (k, q)" by (cases a)
  from Cons.prems have "q \<noteq> p" and "p \<notin> snd ` set cfg" by (auto simp: a)
  then show ?case using Cons.IH by (simp add: a Let_def deref_assign)
qed

lemma range_config_entry:
  assumes "distinct (map snd cfg)" and "(key, p) \<in> set cfg"
  shows "deref p (range_config env cfg vs) =
    (if os_Getenv env key \<noteq> [] then os_Getenv env key else deref p vs)"
  using assms
proof (induction cfg arbitrary: vs)
  case Nil
  then show ?case by simp
next
  case (Cons a cfg)
  obtain k q where a: "a = (k, q)" by (cases a)
  show ?case
  proof (cases "(key, p) = (k, q)")
    case True
    then have "p \<notin> snd ` set cfg" using Cons.prems(1) by (auto simp: a)
    then show ?thesis using True by (simp add: a Let_def range_config_other deref_assign)
  next
    case False
    then have m: "(key, p) \<in> set cfg" using Cons.prems(2) by (auto simp: a)
    then have "q \<noteq> p" using Cons.prems(1) by (force simp: a)
    moreover have "distinct (map snd cfg)" using Cons.prems(1) by simp
    ultimately show ?thesis using Cons.IH [OF _ m] by (simp add: a Let_def deref_assign)
  qed
qed

lemma range_config_order:
  assumes "distinct (map snd cfg)" and "distinct (map snd cfg')" and "set cfg = set cfg'"
  shows "range_config env cfg vs = range_config env cfg' vs"
proof (rule vars_eqI)
  fix p
  show "deref p (range_config env cfg vs) = deref p (range_config env cfg' vs)"
  proof (cases "p \<in> snd ` set cfg")
    case True
    then obtain key where "(key, p) \<in> set cfg" by auto
    then show ?thesis
      using assms range_config_entry [of cfg key p] range_config_entry [of cfg' key p] by simp
  next
    case False
    then show ?thesis using assms(3) by (simp add: range_config_other)
  qed
qed

lemma range_config_Getenv:
  assumes "\<And>k. os_Getenv env k = os_Getenv env' k"
  shows "range_config env cfg vs = range_config env' cfg vs"
proof (induction cfg arbitrary: vs)
  case Nil
  then show ?case by simp
next
  case (Cons a cfg)
  then show ?case by (cases a) (simp add: assms Let_def)
qed

lemma config_distinct: "distinct (map snd config)"
  by (simp add: config_def)

lemma flags_lookup: "(name, p) \<in> set flags \<Longrightarrow> map_of flags name = Some p"
  by (rule map_of_is_SomeI) (simp_all add: flags_def)

lemma flags_inj:
  "map_of flags n = Some p \<Longrightarrow> map_of flags name = Some p \<Longrightarrow> n = name"
  by (auto simp: flags_def split: if_splits)

lemma flag_Parse_deref:
  assumes "map_of flags name = Some p"
  shows "flag_Parse args vs = Some vs' \<Longrightarrow>
    deref p vs' = (case passed name args of Some x \<Rightarrow> x | None \<Rightarrow> deref p vs)"
proof (induction args arbitrary: vs)
  case Nil
  then show ?case by simp
next
  case (Cons a args)
  obtain n x where a: "a = (n, x)" by (cases a)
  from Cons.prems obtain q where q: "map_of flags n = Some q"
    and r: "flag_Parse args (assign q x vs) = Some vs'"
    by (auto simp: a split: option.splits)
  have e: "q = p \<longleftrightarrow> n = name"
    using q assms flags_inj [of n p name] by auto
  show ?case
    using Cons.IH [OF r] e by (auto simp: a deref_assign split: option.splits)
qed

text \<open>
  Claim C5, as amended. For each of the five configuration keys, when the process
  reaches line 189: a value passed on the command line for the flag is the value of the
  configuration, whatever the environment; without one, the value is that of the
  environment variable when the variable is set and not empty, and the default of the
  flag when the variable is unset or empty.
\<close>

theorem configuration_value:
  assumes "(key, p) \<in> set config" and "(name, p) \<in> set flags"
    and "main_config env args = Some vs"
  shows "deref p vs =
    (case passed name args of
       Some x \<Rightarrow> x
     | None \<Rightarrow>
        (case env key of
           None \<Rightarrow> deref p flag_defaults
         | Some v \<Rightarrow> if v = [] then deref p flag_defaults else v))"
proof -
  have "deref p vs =
      (case passed name args of Some x \<Rightarrow> x
       | None \<Rightarrow> deref p (range_config env config flag_defaults))"
    using assms(3) unfolding main_config_def
    by (rule flag_Parse_deref [OF flags_lookup [OF assms(2)]])
  moreover have "deref p (range_config env config flag_defaults) =
      (case env key of
           None \<Rightarrow> deref p flag_defaults
         | Some v \<Rightarrow> if v = [] then deref p flag_defaults else v)"
    by (simp add: range_config_entry [OF config_distinct assms(1)] os_Getenv_def
        split: option.splits)
  ultimately show ?thesis by (simp split: option.splits)
qed

text \<open>
  Witness of C5, as amended: \<^verbatim>\<open>ADGUARD_ADDRESS=:9000\<close> and the command line
  \<^verbatim>\<open>-endpoint=10.0.0.1:80\<close> give the address \<^verbatim>\<open>:9000\<close>.
\<close>

theorem configuration_value_witness:
  "(''ADGUARD_ADDRESS'', P_address) \<in> set config \<and> (''address'', P_address) \<in> set flags \<and>
   main_config [''ADGUARD_ADDRESS'' \<mapsto> '':9000''] [(''endpoint'', ''10.0.0.1:80'')]
     = Some (flag_defaults\<lparr>endpoint := ''10.0.0.1:80'', address := '':9000''\<rparr>) \<and>
   deref P_address (flag_defaults\<lparr>endpoint := ''10.0.0.1:80'', address := '':9000''\<rparr>)
     = '':9000''"
proof -
  have 1: "(''ADGUARD_ADDRESS'', P_address) \<in> set config" by (simp add: config_def)
  have 2: "(''address'', P_address) \<in> set flags" by (simp add: flags_def)
  have 3: "main_config [''ADGUARD_ADDRESS'' \<mapsto> '':9000''] [(''endpoint'', ''10.0.0.1:80'')]
     = Some (flag_defaults\<lparr>endpoint := ''10.0.0.1:80'', address := '':9000''\<rparr>)"
    by (simp add: main_config_def config_def flags_def os_Getenv_def flag_defaults_def)
  show ?thesis
    using configuration_value [OF 1 2 3] 1 2 3 by simp
qed

text \<open>
  Counterexample to C5 as stated (a variable that is set gives the value of the
  configuration): with \<^verbatim>\<open>ADGUARD_ADDRESS=:9000\<close> and the command line
  \<^verbatim>\<open>-address=:7000\<close> the address is \<^verbatim>\<open>:7000\<close>, since \<^verbatim>\<open>flag.Parse\<close> runs after the
  loop over the environment; and with \<^verbatim>\<open>ADGUARD_PATH\<close> set to the empty string the path
  is the default \<^verbatim>\<open>/metrics\<close>, not the empty string.
\<close>

theorem environment_counterexample:
  "map_option address
     (main_config [''ADGUARD_ADDRESS'' \<mapsto> '':9000''] [(''address'', '':7000'')])
     = Some '':7000'' \<and>
   map_option path (main_config [''ADGUARD_PATH'' \<mapsto> ''''] []) = Some ''/metrics''"
  by (simp add: main_config_def config_def flags_def os_Getenv_def flag_defaults_def)

lemma Getenv_empty:
  "os_Getenv (env(key \<mapsto> [])) k = os_Getenv (env(key := None)) k"
  by (simp add: os_Getenv_def)

text \<open>
  Claim C9. For each configuration key, an environment variable set to the empty
  string is treated as unset: the configuration is the one obtained without the
  variable, so the value of the key is the one passed on the command line if there is
  one, and the default of the flag otherwise.
\<close>

theorem empty_is_unset:
  assumes "(key, p) \<in> set config" and "(name, p) \<in> set flags"
  shows "main_config (env(key \<mapsto> [])) args = main_config (env(key := None)) args \<and>
    (\<forall>vs. main_config (env(key \<mapsto> [])) args = Some vs \<longrightarrow>
       deref p vs =
         (case passed name args of Some x \<Rightarrow> x | None \<Rightarrow> deref p flag_defaults))"
proof -
  have "range_config (env(key \<mapsto> [])) config flag_defaults =
      range_config (env(key := None)) config flag_defaults"
    by (rule range_config_Getenv) (rule Getenv_empty)
  then have 1: "main_config (env(key \<mapsto> [])) args = main_config (env(key := None)) args"
    by (simp add: main_config_def)
  have "deref p (range_config (env(key \<mapsto> [])) config flag_defaults) = deref p flag_defaults"
    by (simp add: range_config_entry [OF config_distinct assms(1)] os_Getenv_def)
  then have 2: "deref p vs =
      (case passed name args of Some x \<Rightarrow> x | None \<Rightarrow> deref p flag_defaults)"
    if "main_config (env(key \<mapsto> [])) args = Some vs" for vs
    using flag_Parse_deref [OF flags_lookup [OF assms(2)], of args _ vs] that
    by (simp add: main_config_def split: option.splits)
  from 1 2 show ?thesis by blast
qed

text \<open>
  Witness of C9: \<^verbatim>\<open>ADGUARD_PATH\<close> set to the empty string leaves the path \<^verbatim>\<open>/metrics\<close>
  and the address passed on the command line.
\<close>

theorem empty_is_unset_witness:
  "(''ADGUARD_PATH'', P_path) \<in> set config \<and> (''path'', P_path) \<in> set flags \<and>
   main_config [''ADGUARD_PATH'' \<mapsto> ''''] [(''address'', '':7000'')] =
     main_config Map.empty [(''address'', '':7000'')] \<and>
   main_config [''ADGUARD_PATH'' \<mapsto> ''''] [(''address'', '':7000'')] =
     Some (flag_defaults\<lparr>address := '':7000''\<rparr>) \<and>
   deref P_path (flag_defaults\<lparr>address := '':7000''\<rparr>) = ''/metrics''"
proof -
  have 1: "(''ADGUARD_PATH'', P_path) \<in> set config" by (simp add: config_def)
  have 2: "(''path'', P_path) \<in> set flags" by (simp add: flags_def)
  have 3: "main_config [''ADGUARD_PATH'' \<mapsto> ''''] [(''address'', '':7000'')] =
     Some (flag_defaults\<lparr>address := '':7000''\<rparr>)"
    by (simp add: main_config_def config_def flags_def os_Getenv_def flag_defaults_def)
  have 4: "passed ''path'' [(''address'', '':7000'')] = None" by simp
  have 5: "deref P_path flag_defaults = ''/metrics''" by (simp add: flag_defaults_def)
  show ?thesis
    using empty_is_unset [OF 1 2, of Map.empty "[(''address'', '':7000'')]"] 1 2 3 4 5
    by simp
qed


section \<open>Properties of the decoder\<close>

lemma first_error_None: "first_error e e' = None \<longleftrightarrow> e = None \<and> e' = None"
  by (simp add: first_error_def split: option.splits)

lemma decode_int_ok: "snd (decode_int j c) = None \<longleftrightarrow> fits_int j"
  by (cases j) (simp_all add: decode_int_def fits_int_def)

lemma decode_float64_ok: "snd (decode_float64 j c) = None \<longleftrightarrow> fits_float64 j"
  by (cases j) (auto simp: decode_float64_def fits_float64_def split: option.splits)

lemma decode_members_ok:
  "snd (decode_members ms m) = None \<longleftrightarrow> list_all (\<lambda>(k, v). fits_float64 v) ms"
proof (induction ms arbitrary: m)
  case Nil
  then show ?case by simp
next
  case (Cons a ms)
  obtain k v where a: "a = (k, v)" by (cases a)
  obtain x e where d: "decode_float64 v 0 = (x, e)" by (cases "decode_float64 v 0")
  have e: "e = None \<longleftrightarrow> fits_float64 v"
    using decode_float64_ok [of v 0] by (simp add: d)
  obtain m' e' where r: "decode_members ms (map_store k x m) = (m', e')"
    by (cases "decode_members ms (map_store k x m)")
  have "e' = None \<longleftrightarrow> list_all (\<lambda>(k, v). fits_float64 v) ms"
    using Cons.IH [of "map_store k x m"] by (simp add: r)
  then show ?case by (simp add: a d r first_error_None e)
qed

lemma decode_map_ok: "snd (decode_map j c) = None \<longleftrightarrow> fits_map j"
  by (cases j) (simp_all add: decode_map_def fits_map_def decode_members_ok)

lemma decode_elements_ok: "snd (decode_elements js) = None \<longleftrightarrow> list_all fits_map js"
proof (induction js)
  case Nil
  then show ?case by simp
next
  case (Cons j js)
  obtain m e where d: "decode_map j [] = (m, e)" by (cases "decode_map j []")
  have e: "e = None \<longleftrightarrow> fits_map j" using decode_map_ok [of j "[]"] by (simp add: d)
  obtain ms e' where r: "decode_elements js = (ms, e')" by (cases "decode_elements js")
  then show ?case using Cons.IH by (simp add: d first_error_None e)
qed

lemma decode_slice_ok: "snd (decode_slice j c) = None \<longleftrightarrow> fits_slice j"
  by (cases j) (simp_all add: decode_slice_def fits_slice_def decode_elements_ok)

lemma store_field_ok: "snd (store_field f v r) = None \<longleftrightarrow> fits f v"
proof (cases f)
  case F_UpstreamTime
  then show ?thesis
    using decode_slice_ok [of v "UpstreamTime r"]
    by (auto simp: store_field_def split: prod.splits)
next
  case F_AllDNSQueries
  then show ?thesis
    using decode_int_ok [of v "AllDNSQueries r"]
    by (auto simp: store_field_def split: prod.splits)
next
  case F_BlockedDNSQueries
  then show ?thesis
    using decode_int_ok [of v "BlockedDNSQueries r"]
    by (auto simp: store_field_def split: prod.splits)
next
  case F_ProcessingTime
  then show ?thesis
    using decode_float64_ok [of v "ProcessingTime r"]
    by (auto simp: store_field_def split: prod.splits)
next
  case F_SafeBrowsing
  then show ?thesis
    using decode_int_ok [of v "SafeBrowsing r"]
    by (auto simp: store_field_def split: prod.splits)
next
  case F_SafeSearch
  then show ?thesis
    using decode_int_ok [of v "SafeSearch r"]
    by (auto simp: store_field_def split: prod.splits)
qed

lemma decode_object_ok: "snd (decode_object ms r) = None \<longleftrightarrow> expected_shape ms"
proof (induction ms arbitrary: r)
  case Nil
  then show ?case by (simp add: expected_shape_def)
next
  case (Cons a ms)
  obtain k v where a: "a = (k, v)" by (cases a)
  show ?case
  proof (cases "lookup_field k")
    case None
    then show ?thesis using Cons.IH [of r] by (simp add: a expected_shape_def)
  next
    case (Some f)
    obtain r' e where s: "store_field f v r = (r', e)" by (cases "store_field f v r")
    have e: "e = None \<longleftrightarrow> fits f v" using store_field_ok [of f v r] by (simp add: s)
    obtain r'' e' where d: "decode_object ms r' = (r'', e')" by (cases "decode_object ms r'")
    have "e' = None \<longleftrightarrow> expected_shape ms" using Cons.IH [of r'] by (simp add: d)
    then show ?thesis
      by (simp add: a Some s d first_error_None e expected_shape_def)
  qed
qed

lemma store_field_other: "g \<noteq> f \<Longrightarrow> is_zero g (fst (store_field f v r)) = is_zero g r"
  by (cases f; cases g) (simp_all add: store_field_def split: prod.splits)

lemma decode_object_absent:
  "absent g ms \<Longrightarrow> is_zero g (fst (decode_object ms r)) = is_zero g r"
proof (induction ms arbitrary: r)
  case Nil
  then show ?case by simp
next
  case (Cons a ms)
  obtain k v where a: "a = (k, v)" by (cases a)
  from Cons.prems have k: "lookup_field k \<noteq> Some g" and m: "absent g ms"
    by (simp_all add: absent_def a)
  show ?case
  proof (cases "lookup_field k")
    case None
    then show ?thesis using Cons.IH [OF m] by (simp add: a)
  next
    case (Some f)
    then have "g \<noteq> f" using k by simp
    then have "is_zero g (fst (store_field f v r)) = is_zero g r" by (rule store_field_other)
    then show ?thesis
      using Cons.IH [OF m, of "fst (store_field f v r)"]
      by (auto simp: a Some split: prod.splits)
  qed
qed

lemma is_zero_Response_zero: "is_zero g Response_zero"
  by (cases g) (simp_all add: Response_zero_def)

lemma Unmarshal_absent:
  "absent f (members b) \<Longrightarrow> is_zero f (fst (Unmarshal b Response_zero))"
proof (cases b)
  case Malformed
  then show ?thesis by (simp add: Unmarshal_def is_zero_Response_zero)
next
  case (Document j)
  assume "absent f (members b)"
  then show ?thesis
    by (cases j)
      (simp_all add: Document Unmarshal_def members_def decode_object_absent
        is_zero_Response_zero)
qed

lemma Unmarshal_ok: "snd (Unmarshal b Response_zero) = None \<longleftrightarrow> expected_body b"
proof (cases b)
  case Malformed
  then show ?thesis by (simp add: Unmarshal_def expected_body_def)
next
  case (Document j)
  then show ?thesis
    by (cases j) (simp_all add: Unmarshal_def expected_body_def decode_object_ok)
qed

text \<open>
  Claim C8, as amended. Whatever the body, every field of the response that is absent
  from it has its zero value (the empty sequence, 0, 0.0), and that a field is absent
  never causes an error: decoding returns no error exactly when the body is \<^verbatim>\<open>null\<close> or
  an object in which every member whose key is matched with a field has a value that
  fits the field.
\<close>

theorem absent_fields_zero:
  "(\<forall>f. absent f (members b) \<longrightarrow> is_zero f (fst (Unmarshal b Response_zero))) \<and>
   (snd (Unmarshal b Response_zero) = None \<longleftrightarrow> expected_body b)"
  by (simp add: Unmarshal_absent Unmarshal_ok)

text \<open>
  Witness of C8, as amended: the body \<^verbatim>\<open>{"num_dns_queries": 10, "comment": "x"}\<close> has
  the expected shape and is decoded without error; the sequence, the processing time
  and the safe-search counter are absent and zero.
\<close>

theorem absent_fields_zero_witness:
  "expected_body (Document (JObject
     [(''num_dns_queries'', JInt 10), (''comment'', JString ''x'')])) \<and>
   absent F_UpstreamTime (members (Document (JObject
     [(''num_dns_queries'', JInt 10), (''comment'', JString ''x'')]))) \<and>
   absent F_ProcessingTime (members (Document (JObject
     [(''num_dns_queries'', JInt 10), (''comment'', JString ''x'')]))) \<and>
   absent F_SafeSearch (members (Document (JObject
     [(''num_dns_queries'', JInt 10), (''comment'', JString ''x'')]))) \<and>
   snd (Unmarshal (Document (JObject [(''num_dns_queries'', JInt 10),
     (''comment'', JString ''x'')])) Response_zero) = None \<and>
   UpstreamTime (fst (Unmarshal (Document (JObject [(''num_dns_queries'', JInt 10),
     (''comment'', JString ''x'')])) Response_zero)) = [] \<and>
   ProcessingTime (fst (Unmarshal (Document (JObject [(''num_dns_queries'', JInt 10),
     (''comment'', JString ''x'')])) Response_zero)) = 0 \<and>
   SafeSearch (fst (Unmarshal (Document (JObject [(''num_dns_queries'', JInt 10),
     (''comment'', JString ''x'')])) Response_zero)) = 0"
proof -
  let ?ms = "[(''num_dns_queries'', JInt 10), (''comment'', JString ''x'')]"
  have l: "lookup_field ''num_dns_queries'' = Some F_AllDNSQueries"
    by (simp add: lookup_field_def Response_tags_def)
  have c: "lookup_field ''comment'' = None"
    by (simp add: lookup_field_def Response_tags_def fold_key_def)
  have s: "expected_body (Document (JObject ?ms))"
    by (simp add: expected_body_def expected_shape_def l c fits_int_def)
  have a: "absent F_UpstreamTime (members (Document (JObject ?ms)))"
    "absent F_ProcessingTime (members (Document (JObject ?ms)))"
    "absent F_SafeSearch (members (Document (JObject ?ms)))"
    by (simp_all add: absent_def members_def l c)
  show ?thesis
    using absent_fields_zero [of "Document (JObject ?ms)"] s a by auto
qed

lemma lookup_field_ignores_case:
  "lookup_field ''Num_DNS_Queries'' = Some F_AllDNSQueries"
  by (simp add: lookup_field_def Response_tags_def fold_key_def)

lemma mistyped_member:
  "Unmarshal (Document (JObject [(''num_dns_queries'', JString ''x''),
      (''num_replaced_safesearch'', JInt 3)])) Response_zero =
     (Response_zero\<lparr>SafeSearch := 3\<rparr>, Some UnmarshalTypeError)"
  by (simp add: Unmarshal_def lookup_field_def Response_tags_def store_field_def
      decode_int_def first_error_def Response_zero_def)

text \<open>
  Counterexample to C8 as stated (every body that is valid JSON and omits fields is
  decoded without error). The body
  \<^verbatim>\<open>{"num_dns_queries": "x", "num_replaced_safesearch": 3}\<close> is valid JSON and omits the
  sequence, the processing time and two counters, and \<^verbatim>\<open>json.Unmarshal\<close> returns a type
  error for it, the string not fitting the counter; the absent sequence is empty and
  the counter that is present and fits is stored. The bodies \<^verbatim>\<open>[]\<close> and \<^verbatim>\<open>3\<close> are valid
  JSON with none of the fields, and give a type error as well.
\<close>

theorem mistyped_body_counterexample:
  "absent F_UpstreamTime (members (Document (JObject [(''num_dns_queries'', JString ''x''),
      (''num_replaced_safesearch'', JInt 3)]))) \<and>
   absent F_ProcessingTime (members (Document (JObject [(''num_dns_queries'', JString ''x''),
      (''num_replaced_safesearch'', JInt 3)]))) \<and>
   snd (Unmarshal (Document (JObject [(''num_dns_queries'', JString ''x''),
      (''num_replaced_safesearch'', JInt 3)])) Response_zero) = Some UnmarshalTypeError \<and>
   UpstreamTime (fst (Unmarshal (Document (JObject [(''num_dns_queries'', JString ''x''),
      (''num_replaced_safesearch'', JInt 3)])) Response_zero)) = [] \<and>
   SafeSearch (fst (Unmarshal (Document (JObject [(''num_dns_queries'', JString ''x''),
      (''num_replaced_safesearch'', JInt 3)])) Response_zero)) = 3 \<and>
   snd (Unmarshal (Document (JArray [])) Response_zero) = Some UnmarshalTypeError \<and>
   snd (Unmarshal (Document (JInt 3)) Response_zero) = Some UnmarshalTypeError"
proof -
  have l: "lookup_field ''num_dns_queries'' = Some F_AllDNSQueries"
    "lookup_field ''num_replaced_safesearch'' = Some F_SafeSearch"
    by (simp_all add: lookup_field_def Response_tags_def)
  have 1: "absent F_UpstreamTime (members (Document (JObject
      [(''num_dns_queries'', JString ''x''), (''num_replaced_safesearch'', JInt 3)])))"
    "absent F_ProcessingTime (members (Document (JObject
      [(''num_dns_queries'', JString ''x''), (''num_replaced_safesearch'', JInt 3)])))"
    by (simp_all add: absent_def members_def l)
  have 2: "snd (Unmarshal (Document (JArray [])) Response_zero) = Some UnmarshalTypeError"
    "snd (Unmarshal (Document (JInt 3)) Response_zero) = Some UnmarshalTypeError"
    by (simp_all add: Unmarshal_def)
  have 3: "snd (Unmarshal (Document (JObject [(''num_dns_queries'', JString ''x''),
      (''num_replaced_safesearch'', JInt 3)])) Response_zero) = Some UnmarshalTypeError"
    by (simp add: mistyped_member)
  have 4: "UpstreamTime (fst (Unmarshal (Document (JObject
      [(''num_dns_queries'', JString ''x''), (''num_replaced_safesearch'', JInt 3)]))
      Response_zero)) = []"
    unfolding mistyped_member by (simp add: Response_zero_def)
  have 5: "SafeSearch (fst (Unmarshal (Document (JObject
      [(''num_dns_queries'', JString ''x''), (''num_replaced_safesearch'', JInt 3)]))
      Response_zero)) = 3"
    unfolding mistyped_member by simp
  from 1 2 3 4 5 show ?thesis by blast
qed

section \<open>The example of the specification\<close>

text \<open>
  Section 8 of the specification: for the body \<open>stats_example\<close> the scrape shows the
  seven samples listed there.
\<close>

lemma specification_example:
  "map exposition (fst (Collect_metrics (serving (Document stats_example)) exporter0)) =
     [(''adguardhome_upstream_responses'', [''1.1.1.1''], 1 / 50),
      (''adguardhome_dns_queries'', [], 10),
      (''adguardhome_blocked_dns_queries'', [], 2),
      (''adguardhome_processing_time'', [], 1 / 2),
      (''adguardhome_blocked_safe_browsing'', [], 1),
      (''adguardhome_blocked_safe_search'', [], 0),
      (''adguardhome_up'', [], 1)]"
proof -
  have e: "float64_of_int 10 = 10" "float64_of_int 2 = 2" "float64_of_int 1 = 1"
    using float64_of_int_exact [of 10] float64_of_int_exact [of 2]
      float64_of_int_exact [of 1] by simp_all
  show ?thesis
    by (simp add: Collect_reads [OF reads_serving] Unmarshal_stats_example
        CollectFromAPI_samples_eq fixed_samples_def up_sample_def
        range_UpstreamTime_def range_map_def exposition_def MustNewConstMetric_def
        desc_defs e float64_of_int_0)
qed

end
